theory Spec2Isabelle
  imports Main "HOL-Library.Char_ord" "HOL-Library.List_Lexorder" "HOL-Library.Product_Lexorder"
    "HOL-Library.Multiset"
begin

section \<open>Data model (src/shared/types/chat.ts)\<close>

text \<open>
  The TypeScript types \<open>ChatRoom\<close>, \<open>Message\<close> and \<open>UserProfile\<close>. JavaScript numbers that
  hold \<open>Date.now()\<close> values and lengths are integers here. The field \<open>id\<close> of the source is
  \<open>rid\<close>, \<open>mid\<close> and \<open>uid\<close> (the name \<open>id\<close> is HOL's identity function).
\<close>

record ChatRoom =
  rid :: string
  title :: string
  topic :: string
  creatorId :: string
  creatorUsername :: string
  participants :: "string list"
  participantCount :: int
  interests :: "string list"
  isActive :: bool
  createdAt :: int
  lastActivity :: int

record Message =
  mid :: string
  chatRoomId :: string
  userId :: string
  username :: string
  content :: string
  timestamp :: int

record UserProfile =
  uid :: string
  profileUsername :: string
  profileInterests :: "string list"
  activeChats :: "string list"
  profileCreatedAt :: int

section \<open>The key-value store\<close>

text \<open>
  The Redis client is an external dependency. Its state is one component per key pattern of
  \<open>REDIS_KEYS\<close> (src/shared/constants.ts):
  \<^item> \<open>chatRoomHash i\<close>: the hash \<open>chatroom:{i}\<close>. Every write of the repository to it is
    either the full field set (\<open>createChatRoom\<close>) or a partial \<open>hSet\<close> guarded by a
    successful \<open>getChatRoom\<close>, so the hash is absent or holds all eleven fields; the
    string encodings (\<open>JSON.stringify\<close>, \<open>toString\<close>) and their inverses in \<open>getChatRoom\<close>
    are composed away and the fields are kept typed.
  \<^item> \<open>activeChatRooms\<close>, \<open>interestChatRooms t\<close>, \<open>userActiveChats u\<close>: hashes used as sets
    (every value is \<open>'1'\<close>); the list is the field names in the order \<open>hGetAll\<close> and
    \<open>Object.keys\<close> enumerate them.
  \<^item> \<open>chatRoomMessages i\<close>: the sorted set \<open>chatroom:{i}:messages\<close>, lowest rank first.
    The member is \<open>JSON.stringify message\<close> and the score is the timestamp; the list holds
    the messages that the members serialise.
  \<^item> \<open>userProfileHash u\<close>: the hash \<open>user:{u}:profile\<close>.
  Store calls are taken to succeed (the handlers turn a store failure into a 500).
\<close>

record Redis =
  chatRoomHash :: "string \<Rightarrow> ChatRoom option"
  activeChatRooms :: "string list"
  interestChatRooms :: "string \<Rightarrow> string list"
  chatRoomMessages :: "string \<Rightarrow> Message list"
  userActiveChats :: "string \<Rightarrow> string list"
  userProfileHash :: "string \<Rightarrow> UserProfile option"

definition emptyRedis :: Redis where
  "emptyRedis = \<lparr> chatRoomHash = (\<lambda>_. None), activeChatRooms = [],
     interestChatRooms = (\<lambda>_. []), chatRoomMessages = (\<lambda>_. []),
     userActiveChats = (\<lambda>_. []), userProfileHash = (\<lambda>_. None) \<rparr>"

text \<open>\<open>hSet key {[f]: '1'}\<close> and \<open>hDel key [f]\<close> on a hash used as a set.\<close>

definition hSetField :: "string list \<Rightarrow> string \<Rightarrow> string list" where
  "hSetField names f = (if f \<in> set names then names else names @ [f])"

definition hDelField :: "string list \<Rightarrow> string \<Rightarrow> string list" where
  "hDelField names f = filter (\<lambda>g. g \<noteq> f) names"

text \<open>
  \<open>Array.prototype.sort(compareFn)\<close> is a stable sort (ECMAScript 2019); for a comparator
  that is a consistent ordering its result is the one of this stable insertion sort.
\<close>

fun insertCmp :: "('a \<Rightarrow> 'a \<Rightarrow> int) \<Rightarrow> 'a \<Rightarrow> 'a list \<Rightarrow> 'a list" where
  "insertCmp cmp x [] = [x]"
| "insertCmp cmp x (y # ys) = (if cmp x y \<le> 0 then x # y # ys else y # insertCmp cmp x ys)"

definition arraySort :: "('a \<Rightarrow> 'a \<Rightarrow> int) \<Rightarrow> 'a list \<Rightarrow> 'a list" where
  "arraySort cmp xs = foldr (insertCmp cmp) xs []"

section \<open>ChatRoomRepository (src/server/data)\<close>

text \<open>
  \<open>generateId()\<close> and \<open>Date.now()\<close> read the environment; their results are the
  parameters \<open>newId\<close> and \<open>now\<close>.
\<close>

definition createChatRoom ::
  "Redis \<Rightarrow> string \<Rightarrow> string \<Rightarrow> string \<Rightarrow> string \<Rightarrow> string list \<Rightarrow> string \<Rightarrow> int
    \<Rightarrow> ChatRoom \<times> Redis" where
  "createChatRoom st ttl tpc creator creatorName ints newId now =
     (let room = \<lparr> rid = newId, title = ttl, topic = tpc, creatorId = creator,
                    creatorUsername = creatorName, participants = [creator],
                    participantCount = 1, interests = ints, isActive = True,
                    createdAt = now, lastActivity = now \<rparr>;
          st1 = st\<lparr> chatRoomHash := (chatRoomHash st)(newId \<mapsto> room) \<rparr>;
          st2 = st1\<lparr> activeChatRooms := hSetField (activeChatRooms st1) newId \<rparr>;
          st3 = foldl (\<lambda>s interest. s\<lparr> interestChatRooms :=
                   (interestChatRooms s)(interest := hSetField (interestChatRooms s interest) newId) \<rparr>)
                 st2 ints
      in (room, st3))"

definition getChatRoom :: "Redis \<Rightarrow> string \<Rightarrow> ChatRoom option" where
  "getChatRoom st i =
     (case chatRoomHash st i of
        None \<Rightarrow> None
      | Some data \<Rightarrow> if rid data = [] then None else Some data)"

definition activeRoomsOf :: "Redis \<Rightarrow> string list \<Rightarrow> ChatRoom list" where
  "activeRoomsOf st ids =
     concat (map (\<lambda>i. case getChatRoom st i of
                         None \<Rightarrow> []
                       | Some room \<Rightarrow> if isActive room then [room] else []) ids)"

definition getActiveChatRooms :: "Redis \<Rightarrow> ChatRoom list" where
  "getActiveChatRooms st =
     arraySort (\<lambda>a b. lastActivity b - lastActivity a) (activeRoomsOf st (activeChatRooms st))"

text \<open>\<open>new Set<string>()\<close> filled with \<open>add\<close>: first occurrence wins, insertion order is kept.\<close>

definition setAdd :: "string list \<Rightarrow> string \<Rightarrow> string list" where
  "setAdd s i = (if i \<in> set s then s else s @ [i])"

definition matchCount :: "string list \<Rightarrow> ChatRoom \<Rightarrow> int" where
  "matchCount ints a = int (length (filter (\<lambda>i. i \<in> set ints) (interests a)))"

definition interestCmp :: "string list \<Rightarrow> ChatRoom \<Rightarrow> ChatRoom \<Rightarrow> int" where
  "interestCmp ints a b =
     (let aMatches = matchCount ints a; bMatches = matchCount ints b
      in if aMatches \<noteq> bMatches then bMatches - aMatches
         else lastActivity b - lastActivity a)"

definition interestRoomIds :: "Redis \<Rightarrow> string list \<Rightarrow> string list" where
  "interestRoomIds st ints =
     foldl (\<lambda>chatRoomIds interest. foldl setAdd chatRoomIds (interestChatRooms st interest)) [] ints"

definition getChatRoomsByInterests :: "Redis \<Rightarrow> string list \<Rightarrow> ChatRoom list" where
  "getChatRoomsByInterests st ints =
     (if length ints = 0 then getActiveChatRooms st
      else arraySort (interestCmp ints) (activeRoomsOf st (interestRoomIds st ints)))"

definition joinChatRoom :: "Redis \<Rightarrow> string \<Rightarrow> string \<Rightarrow> int \<Rightarrow> bool \<times> Redis" where
  "joinChatRoom st chatRoomId' user now =
     (case getChatRoom st chatRoomId' of
        None \<Rightarrow> (False, st)
      | Some room \<Rightarrow>
          if \<not> isActive room then (False, st)
          else if user \<in> set (participants room) then (True, st)
          else (let updatedParticipants = participants room @ [user]
                in (True, st\<lparr> chatRoomHash := (chatRoomHash st)(chatRoomId' \<mapsto>
                      room\<lparr> participants := updatedParticipants,
                            participantCount := int (length updatedParticipants),
                            lastActivity := now \<rparr>) \<rparr>)))"

definition deactivateChatRoom :: "Redis \<Rightarrow> string \<Rightarrow> Redis" where
  "deactivateChatRoom st chatRoomId' =
     (case getChatRoom st chatRoomId' of
        None \<Rightarrow> st
      | Some room \<Rightarrow>
          (let st1 = st\<lparr> chatRoomHash := (chatRoomHash st)(chatRoomId' \<mapsto> room\<lparr> isActive := False \<rparr>) \<rparr>;
               st2 = st1\<lparr> activeChatRooms := hDelField (activeChatRooms st1) chatRoomId' \<rparr>
           in foldl (\<lambda>s interest. s\<lparr> interestChatRooms :=
                   (interestChatRooms s)(interest := hDelField (interestChatRooms s interest) chatRoomId') \<rparr>)
                 st2 (interests room)))"

definition leaveChatRoom :: "Redis \<Rightarrow> string \<Rightarrow> string \<Rightarrow> int \<Rightarrow> bool \<times> Redis" where
  "leaveChatRoom st chatRoomId' user now =
     (case getChatRoom st chatRoomId' of
        None \<Rightarrow> (False, st)
      | Some room \<Rightarrow>
          (let updatedParticipants = filter (\<lambda>p. p \<noteq> user) (participants room)
           in if length updatedParticipants = 0 then (True, deactivateChatRoom st chatRoomId')
              else (True, st\<lparr> chatRoomHash := (chatRoomHash st)(chatRoomId' \<mapsto>
                      room\<lparr> participants := updatedParticipants,
                            participantCount := int (length updatedParticipants),
                            lastActivity := now \<rparr>) \<rparr>)))"

definition deleteChatRoom :: "Redis \<Rightarrow> string \<Rightarrow> string \<Rightarrow> bool \<times> Redis" where
  "deleteChatRoom st chatRoomId' user =
     (case getChatRoom st chatRoomId' of
        None \<Rightarrow> (False, st)
      | Some room \<Rightarrow>
          if creatorId room \<noteq> user then (False, st)
          else (let st1 = deactivateChatRoom st chatRoomId';
                    st2 = st1\<lparr> chatRoomHash := (chatRoomHash st1)(chatRoomId' := None) \<rparr>;
                    st3 = st2\<lparr> chatRoomMessages := (chatRoomMessages st2)(chatRoomId' := []) \<rparr>
                in (True, st3)))"

section \<open>Serialised members and the sorted set\<close>

text \<open>
  \<open>JSON.stringify\<close> on a \<open>Message\<close>: the keys in declaration order, strings quoted as
  ECMAScript's QuoteJSONString does (strings are byte strings here, so a character outside
  ASCII is its UTF-8 bytes, which JSON leaves as they are), the timestamp in decimal.
\<close>

text \<open>\<open>digitChar\<close> is only applied to numbers below 16.\<close>

definition digitChar :: "nat \<Rightarrow> char" where
  "digitChar n = ''0123456789abcdef'' ! n"

fun showNat :: "nat \<Rightarrow> string" where
  "showNat n = (if n < 10 then [digitChar n] else showNat (n div 10) @ [digitChar (n mod 10)])"

declare showNat.simps [simp del]

definition showInt :: "int \<Rightarrow> string" where
  "showInt i = (if i < 0 then CHR ''-'' # showNat (nat (- i)) else showNat (nat i))"

definition escapeChar :: "char \<Rightarrow> string" where
  "escapeChar c =
     (if c = CHR 0x08 then [CHR 0x5C, CHR ''b'']
      else if c = CHR 0x09 then [CHR 0x5C, CHR ''t'']
      else if c = CHR 0x0A then [CHR 0x5C, CHR ''n'']
      else if c = CHR 0x0C then [CHR 0x5C, CHR ''f'']
      else if c = CHR 0x0D then [CHR 0x5C, CHR ''r'']
      else if c = CHR 0x22 then [CHR 0x5C, CHR 0x22]
      else if c = CHR 0x5C then [CHR 0x5C, CHR 0x5C]
      else if (of_char c :: nat) < 32
        then [CHR 0x5C, CHR ''u'', CHR ''0'', CHR ''0'',
              digitChar (of_char c div 16), digitChar (of_char c mod 16)]
      else [c])"

definition jsonQuote :: "string \<Rightarrow> string" where
  "jsonQuote s = CHR 0x22 # concat (map escapeChar s) @ [CHR 0x22]"

definition stringifyMessage :: "Message \<Rightarrow> string" where
  "stringifyMessage m =
     ''{'' @ jsonQuote ''id'' @ '':'' @ jsonQuote (mid m) @ '','' @
     jsonQuote ''chatRoomId'' @ '':'' @ jsonQuote (chatRoomId m) @ '','' @
     jsonQuote ''userId'' @ '':'' @ jsonQuote (userId m) @ '','' @
     jsonQuote ''username'' @ '':'' @ jsonQuote (username m) @ '','' @
     jsonQuote ''content'' @ '':'' @ jsonQuote (content m) @ '','' @
     jsonQuote ''timestamp'' @ '':'' @ showInt (timestamp m) @ ''}''"

text \<open>
  A Redis sorted set orders its members by score and, among equal scores, by the bytes of
  the member. The only \<open>zAdd\<close> of the repository gives a message its timestamp as score, so
  the rank of a stored message is decided by \<open>zKey\<close>. \<open>zAdd\<close> of a member that is already
  there moves it; \<open>zCard\<close> is the length of the list.
\<close>

definition zKey :: "Message \<Rightarrow> int \<times> string" where
  "zKey m = (timestamp m, stringifyMessage m)"

definition zAdd :: "Message list \<Rightarrow> Message \<Rightarrow> Message list" where
  "zAdd l m = insort_key zKey m (filter (\<lambda>x. stringifyMessage x \<noteq> stringifyMessage m) l)"

text \<open>\<open>zRemRangeByRank key start stop\<close>: both ranks inclusive, a negative rank counts from the end.\<close>

definition zRemRangeByRank :: "'a list \<Rightarrow> int \<Rightarrow> int \<Rightarrow> 'a list" where
  "zRemRangeByRank l start stop =
     (let n = int (length l);
          s = (if start < 0 then max 0 (n + start) else start);
          e = (if stop < 0 then n + stop else min stop (n - 1))
      in if s > e then l else take (nat s) l @ drop (nat (e + 1)) l)"

text \<open>Score bounds as the client takes them: \<open>'-inf'\<close>, \<open>'+inf'\<close>, and \<open>'(' + n\<close> (exclusive).\<close>

datatype scoreBound = NegInf | PosInf | Excl int

fun aboveMin :: "scoreBound \<Rightarrow> int \<Rightarrow> bool" where
  "aboveMin NegInf s = True"
| "aboveMin PosInf s = False"
| "aboveMin (Excl b) s = (b < s)"

fun belowMax :: "scoreBound \<Rightarrow> int \<Rightarrow> bool" where
  "belowMax NegInf s = False"
| "belowMax PosInf s = True"
| "belowMax (Excl b) s = (s < b)"

text \<open>\<open>LIMIT offset count\<close>: a negative count returns everything from the offset on.\<close>

definition limitCount :: "int \<Rightarrow> 'a list \<Rightarrow> 'a list" where
  "limitCount cnt l = (if cnt < 0 then l else take (nat cnt) l)"

text \<open>
  \<open>zRange key start stop {by: 'score', limit: {offset: 0, count}, rev: true}\<close>. The client
  names its option for the direction \<open>reverse\<close>; \<open>rev\<close> is no option of it and is ignored.
  The call gives the members whose score is in the range, lowest rank first, cut to
  \<open>count\<close>, each as an object \<open>{member, score}\<close> (the fields are \<open>zmember\<close> and \<open>zscore\<close>
  here: \<open>member\<close> is HOL's set membership).
\<close>

record ZMember =
  zmember :: string
  zscore :: int

definition zRange :: "Message list \<Rightarrow> scoreBound \<Rightarrow> scoreBound \<Rightarrow> int \<Rightarrow> ZMember list" where
  "zRange l start stop cnt =
     limitCount cnt
       (map (\<lambda>m. \<lparr> zmember = stringifyMessage m, zscore = timestamp m \<rparr>)
          (filter (\<lambda>m. aboveMin start (timestamp m) \<and> belowMax stop (timestamp m)) l))"

text \<open>
  Errors that the repository's calls raise. \<open>JSON.parse\<close> turns an argument that is no
  string into one; for an object that is the text \<open>[object Object]\<close>, which is no JSON
  text, so \<open>JSON.parse\<close> of an element of \<open>zRange\<close>'s result throws \<open>SyntaxError\<close>.
\<close>

datatype jsError = TypeError | SyntaxError

definition jsonParse :: "ZMember \<Rightarrow> jsError + Message" where
  "jsonParse d = Inl SyntaxError"

section \<open>parseInt\<close>

text \<open>
  \<open>parseInt(string)\<close> without a radix: leading white space is skipped, then an optional
  sign, then \<open>0x\<close> or \<open>0X\<close> selects base 16, then the longest run of digits is read; no digit
  gives \<open>NaN\<close>, which is \<open>None\<close> here. (White space is the ASCII white space.)
\<close>

definition isWhiteSpace :: "char \<Rightarrow> bool" where
  "isWhiteSpace c = (c \<in> set [CHR 0x09, CHR 0x0A, CHR 0x0B, CHR 0x0C, CHR 0x0D, CHR 0x20])"

definition digitValue :: "char \<Rightarrow> nat" where
  "digitValue c =
     (let n = (of_char c :: nat)
      in if 48 \<le> n \<and> n \<le> 57 then n - 48
         else if 97 \<le> n \<and> n \<le> 122 then n - 87
         else if 65 \<le> n \<and> n \<le> 90 then n - 55
         else 36)"

fun readDigits :: "nat \<Rightarrow> string \<Rightarrow> nat option \<Rightarrow> nat option" where
  "readDigits radix [] acc = acc"
| "readDigits radix (c # cs) acc =
     (if digitValue c < radix
      then readDigits radix cs (Some ((case acc of None \<Rightarrow> 0 | Some a \<Rightarrow> a) * radix + digitValue c))
      else acc)"

definition parseInt :: "string \<Rightarrow> int option" where
  "parseInt s =
     (let s1 = dropWhile isWhiteSpace s;
          neg = (s1 \<noteq> [] \<and> hd s1 = CHR ''-'');
          s2 = (if s1 \<noteq> [] \<and> (hd s1 = CHR ''-'' \<or> hd s1 = CHR ''+'') then tl s1 else s1);
          hex = (take 2 s2 = ''0x'' \<or> take 2 s2 = ''0X'');
          digits = readDigits (if hex then 16 else 10) (if hex then drop 2 s2 else s2) None
      in case digits of
           None \<Rightarrow> None
         | Some n \<Rightarrow> Some (if neg then - int n else int n))"

section \<open>MessageRepository (src/server/data)\<close>

definition MESSAGE_HISTORY_LIMIT :: int where
  "MESSAGE_HISTORY_LIMIT = 100"

definition createMessage ::
  "Redis \<Rightarrow> string \<Rightarrow> string \<Rightarrow> string \<Rightarrow> string \<Rightarrow> string \<Rightarrow> int \<Rightarrow> Message \<times> Redis" where
  "createMessage st room user name text newId now =
     (let message = \<lparr> mid = newId, chatRoomId = room, userId = user, username = name,
                       content = text, timestamp = now \<rparr>;
          l1 = zAdd (chatRoomMessages st room) message;
          messageCount = int (length l1);
          l2 = (if messageCount > MESSAGE_HISTORY_LIMIT
                then (let toRemove = messageCount - MESSAGE_HISTORY_LIMIT
                      in zRemRangeByRank l1 0 (toRemove - 1))
                else l1)
      in (message, st\<lparr> chatRoomMessages := (chatRoomMessages st)(room := l2) \<rparr>))"

text \<open>
  \<open>limit: number = 50\<close> and \<open>before?: string\<close>: an argument left out is \<open>None\<close>. The loop
  over \<open>messageData\<close> parses each element inside \<open>try\<close>; an element whose parsing throws
  is logged and left out.
\<close>

definition getMessages :: "Redis \<Rightarrow> string \<Rightarrow> int option \<Rightarrow> string option \<Rightarrow> Message list" where
  "getMessages st room limit before =
     (let cnt = (case limit of None \<Rightarrow> 50 | Some n \<Rightarrow> n);
          maxScore =
            (case before of
               None \<Rightarrow> PosInf
             | Some b \<Rightarrow>
                 if b = [] then PosInf
                 else (case parseInt b of None \<Rightarrow> PosInf | Some beforeTimestamp \<Rightarrow> Excl beforeTimestamp));
          messageData = zRange (chatRoomMessages st room) NegInf maxScore cnt
      in concat (map (\<lambda>d. case jsonParse d of Inl e \<Rightarrow> [] | Inr m \<Rightarrow> [m]) messageData))"

text \<open>
  The client has no method \<open>zRangeByScore\<close>: the call \<open>this.redis.zRangeByScore(...)\<close>
  raises \<open>TypeError\<close> before anything is read, and \<open>getMessagesAfter\<close> does not catch it.
\<close>

definition getMessagesAfter :: "Redis \<Rightarrow> string \<Rightarrow> int \<Rightarrow> jsError + Message list" where
  "getMessagesAfter st room ts = Inl TypeError"

section \<open>UserRepository: the active-chat cache\<close>

definition getUserProfile :: "Redis \<Rightarrow> string \<Rightarrow> UserProfile option" where
  "getUserProfile st user =
     (case userProfileHash st user of
        None \<Rightarrow> None
      | Some data \<Rightarrow> if uid data = [] then None else Some data)"

definition addUserToActiveChat :: "Redis \<Rightarrow> string \<Rightarrow> string \<Rightarrow> Redis" where
  "addUserToActiveChat st user chatRoomId' =
     (let st1 = st\<lparr> userActiveChats :=
                   (userActiveChats st)(user := hSetField (userActiveChats st user) chatRoomId') \<rparr>;
          chats = userActiveChats st1 user
      in case getUserProfile st1 user of
           None \<Rightarrow> st1
         | Some profile \<Rightarrow>
             st1\<lparr> userProfileHash := (userProfileHash st1)(user \<mapsto> profile\<lparr> activeChats := chats \<rparr>) \<rparr>)"

section \<open>Validation helpers (src/shared)\<close>

record Validation =
  valid :: bool
  error :: "string option"

text \<open>\<open>String.prototype.trim\<close>, on ASCII white space.\<close>

definition trim :: "string \<Rightarrow> string" where
  "trim s = rev (dropWhile isWhiteSpace (rev (dropWhile isWhiteSpace s)))"

definition validateChatRoomTitle :: "string \<Rightarrow> Validation" where
  "validateChatRoomTitle ttl =
     (if ttl = [] \<or> length (trim ttl) = 0
        then \<lparr> valid = False, error = Some ''Chat room title cannot be empty'' \<rparr>
      else if length ttl > 100
        then \<lparr> valid = False, error = Some ''Title too long (max 100 characters)'' \<rparr>
      else \<lparr> valid = True, error = None \<rparr>)"

definition validateChatRoomTopic :: "string \<Rightarrow> Validation" where
  "validateChatRoomTopic tpc =
     (if tpc = [] \<or> length (trim tpc) = 0
        then \<lparr> valid = False, error = Some ''Chat room topic cannot be empty'' \<rparr>
      else if length tpc > 200
        then \<lparr> valid = False, error = Some ''Topic too long (max 200 characters)'' \<rparr>
      else \<lparr> valid = True, error = None \<rparr>)"

definition INTEREST_TAG_IDS :: "string list" where
  "INTEREST_TAG_IDS = [''gaming'', ''technology'', ''music'', ''movies'', ''sports'', ''food'',
     ''travel'', ''books'', ''art'', ''science'', ''fitness'', ''photography'']"

section \<open>Request handlers (src/server/index.ts)\<close>

text \<open>
  A handler gets the store, the request context of the host (\<open>userId\<close> and \<open>username\<close>, each
  possibly undefined), and its request; it returns the response, the store, and the
  real-time messages it has sent, each with its channel.
\<close>

record Context =
  ctxUserId :: "string option"
  ctxUsername :: "string option"

datatype 'a response = ErrorResponse nat string | SuccessResponse nat 'a

datatype RealtimeMessageType = message | user_joined | user_left | room_created | room_deleted

record RealtimeMessage =
  rtType :: RealtimeMessageType
  rtChatRoomId :: string
  rtUserId :: string
  rtUsername :: string
  rtTimestamp :: int

text \<open>JavaScript's \<open>!x\<close> on a value that is a string or undefined.\<close>

definition falsy :: "string option \<Rightarrow> bool" where
  "falsy x = (x = None \<or> x = Some [])"

record CreateChatRoomRequest =
  reqTitle :: string
  reqTopic :: string
  reqInterests :: "string list option"

text \<open>\<open>reqInterests = None\<close> is a body whose \<open>interests\<close> is not an array.\<close>

definition createChatRoomHandler ::
  "Redis \<Rightarrow> Context \<Rightarrow> CreateChatRoomRequest \<Rightarrow> string \<Rightarrow> int
    \<Rightarrow> ChatRoom response \<times> Redis \<times> (string \<times> RealtimeMessage) list" where
  "createChatRoomHandler st ctx req newId now =
     (case (ctxUserId ctx, ctxUsername ctx) of
        (Some user, Some name) \<Rightarrow>
          if user = [] \<or> name = [] then (ErrorResponse 401 ''AUTH_REQUIRED'', st, [])
          else if \<not> valid (validateChatRoomTitle (reqTitle req))
            then (ErrorResponse 400 ''INVALID_TITLE'', st, [])
          else if \<not> valid (validateChatRoomTopic (reqTopic req))
            then (ErrorResponse 400 ''INVALID_TOPIC'', st, [])
          else (case reqInterests req of
                  None \<Rightarrow> (ErrorResponse 400 ''INVALID_INTERESTS'', st, [])
                | Some ints \<Rightarrow>
                    (let invalidInterests = filter (\<lambda>interest. interest \<notin> set INTEREST_TAG_IDS) ints
                     in if length invalidInterests > 0
                          then (ErrorResponse 400 ''INVALID_INTERESTS'', st, [])
                        else (let (chatRoom, st1) =
                                    createChatRoom st (trim (reqTitle req)) (trim (reqTopic req))
                                      user name ints newId now;
                                  st2 = addUserToActiveChat st1 user (rid chatRoom)
                              in (SuccessResponse 201 chatRoom, st2,
                                  [(''discovery'',
                                    \<lparr> rtType = room_created, rtChatRoomId = rid chatRoom,
                                      rtUserId = creatorId chatRoom,
                                      rtUsername = creatorUsername chatRoom,
                                      rtTimestamp = createdAt chatRoom \<rparr>)]))))
      | _ \<Rightarrow> (ErrorResponse 401 ''AUTH_REQUIRED'', st, []))"

definition deleteChatRoomHandler ::
  "Redis \<Rightarrow> Context \<Rightarrow> string \<Rightarrow> int
    \<Rightarrow> unit response \<times> Redis \<times> (string \<times> RealtimeMessage) list" where
  "deleteChatRoomHandler st ctx i now =
     (case ctxUserId ctx of
        None \<Rightarrow> (ErrorResponse 401 ''AUTH_REQUIRED'', st, [])
      | Some user \<Rightarrow>
          if user = [] then (ErrorResponse 401 ''AUTH_REQUIRED'', st, [])
          else (let (success, st1) = deleteChatRoom st i user
                in if \<not> success then (ErrorResponse 403 ''FORBIDDEN'', st1, [])
                   else (SuccessResponse 200 (), st1,
                         (case ctxUsername ctx of
                            None \<Rightarrow> []
                          | Some name \<Rightarrow>
                              if name = [] then []
                              else [(''discovery'',
                                     \<lparr> rtType = room_deleted, rtChatRoomId = i, rtUserId = user,
                                       rtUsername = name, rtTimestamp = now \<rparr>)]))))"

text \<open>
  The query's \<open>limit\<close> is \<open>None\<close> when it is left out or is not a number (\<open>Number(limit)\<close> is
  \<open>NaN\<close>); in both cases, and for 0, \<open>Number(limit) || 50\<close> is 50.
\<close>

definition getMessagesHandler ::
  "Redis \<Rightarrow> Context \<Rightarrow> string \<Rightarrow> int option \<Rightarrow> string option \<Rightarrow> Message list response" where
  "getMessagesHandler st ctx i limit before =
     (case ctxUserId ctx of
        None \<Rightarrow> ErrorResponse 401 ''AUTH_REQUIRED''
      | Some user \<Rightarrow>
          if user = [] then ErrorResponse 401 ''AUTH_REQUIRED''
          else (case getChatRoom st i of
                  None \<Rightarrow> ErrorResponse 404 ''CHAT_ROOM_NOT_FOUND''
                | Some chatRoom \<Rightarrow>
                    if user \<notin> set (participants chatRoom) then ErrorResponse 403 ''ACCESS_DENIED''
                    else (let limitNum = min (case limit of None \<Rightarrow> 50
                                                | Some n \<Rightarrow> if n = 0 then 50 else n) 100
                          in SuccessResponse 200 (getMessages st i (Some limitNum) before))))"

section \<open>Invariants and example stores\<close>

text \<open>The stored count of every room hash is the length of its stored participant list.\<close>

definition countInv :: "Redis \<Rightarrow> bool" where
  "countInv st = (\<forall>i room. chatRoomHash st i = Some room \<longrightarrow>
                    participantCount room = int (length (participants room)))"

text \<open>
  What \<open>createChatRoom\<close> sets up: a room hash is stored under the id it holds, and an
  interest index lists an id only under a tag of that room.
\<close>

definition keyInv :: "Redis \<Rightarrow> bool" where
  "keyInv st = (\<forall>j room. chatRoomHash st j = Some room \<longrightarrow> rid room = j)"

definition indexInv :: "Redis \<Rightarrow> bool" where
  "indexInv st = (\<forall>i t. i \<in> set (interestChatRooms st t) \<longrightarrow>
                    (\<exists>room. chatRoomHash st i = Some room \<and> t \<in> set (interests room)))"

text \<open>The spec's scenario: user \<open>u1\<close> creates the room "Book Club" in an empty store.\<close>

definition room_book :: ChatRoom where
  "room_book = fst (createChatRoom emptyRedis ''Book Club'' ''Weekly fiction discussion''
                      ''u1'' ''alice'' [''books''] ''room1'' 1000)"

definition st_book :: Redis where
  "st_book = snd (createChatRoom emptyRedis ''Book Club'' ''Weekly fiction discussion''
                    ''u1'' ''alice'' [''books''] ''room1'' 1000)"

text \<open>Requests to the create-room handler, sent by \<open>u1\<close> (\<open>alice\<close>).\<close>

definition ctx_alice :: Context where
  "ctx_alice = \<lparr> ctxUserId = Some ''u1'', ctxUsername = Some ''alice'' \<rparr>"

definition req_short :: CreateChatRoomRequest where
  "req_short = \<lparr> reqTitle = ''ab'', reqTopic = ''hello'', reqInterests = Some [] \<rparr>"

definition req_six :: CreateChatRoomRequest where
  "req_six = \<lparr> reqTitle = ''Book Club'', reqTopic = ''Weekly fiction discussion'',
       reqInterests = Some [''gaming'', ''technology'', ''music'', ''movies'', ''sports'', ''food''] \<rparr>"

text \<open>The sort key that \<open>interestCmp\<close> compares by, and the order it induces.\<close>

definition rankKey :: "string list \<Rightarrow> ChatRoom \<Rightarrow> int \<times> int" where
  "rankKey ints r = (- matchCount ints r, - lastActivity r)"

definition ranksBefore :: "string list \<Rightarrow> ChatRoom \<Rightarrow> ChatRoom \<Rightarrow> bool" where
  "ranksBefore ints a b =
     (matchCount ints b < matchCount ints a \<or>
      (matchCount ints b = matchCount ints a \<and> lastActivity b \<le> lastActivity a))"

text \<open>Two rooms of equal \<open>lastActivity\<close>: \<open>B\<close> (created first) under one tag, \<open>A\<close> under two.\<close>

definition st_ab :: Redis where
  "st_ab = snd (createChatRoom
             (snd (createChatRoom emptyRedis ''Room B'' ''About video games'' ''u2'' ''bob''
                     [''gaming''] ''B'' 1000))
             ''Room A'' ''Games and their music'' ''u1'' ''alice'' [''gaming'', ''music''] ''A'' 1000)"

text \<open>
  \<open>createMessage\<close> called with the fields of a message: the message it builds, stores and
  returns is that message. \<open>retain\<close> is what its clean-up keeps of a log.
\<close>

definition storeMessage :: "Redis \<Rightarrow> Message \<Rightarrow> Redis" where
  "storeMessage st m =
     snd (createMessage st (chatRoomId m) (userId m) (username m) (content m) (mid m) (timestamp m))"

definition retain :: "Message list \<Rightarrow> Message list" where
  "retain l = drop (length l - 100) l"

text \<open>
  Messages to the room of \<open>st_book\<close> whose timestamp is a running number (and whose id is
  that time with a suffix, as \<open>generateId\<close> builds it).
\<close>

definition numbered :: "int \<Rightarrow> Message" where
  "numbered k = \<lparr> mid = showInt k @ ''-m'', chatRoomId = ''room1'', userId = ''u1'', username = ''alice'',
                   content = ''hi'', timestamp = k \<rparr>"

definition numberedFrom :: "int \<Rightarrow> int \<Rightarrow> Message list" where
  "numberedFrom i j = map numbered [i..j]"

definition msgs105 :: "Message list" where
  "msgs105 = numberedFrom 0 104"

text \<open>The rank order of a sorted set of messages, spelled out.\<close>

definition rankLe :: "Message \<Rightarrow> Message \<Rightarrow> bool" where
  "rankLe a b = (timestamp a < timestamp b \<or>
                 (timestamp a = timestamp b \<and> stringifyMessage a \<le> stringifyMessage b))"

definition logsSorted :: "Redis \<Rightarrow> bool" where
  "logsSorted st = (\<forall>r. sorted (map zKey (chatRoomMessages st r)))"

text \<open>
  Two messages with the same timestamp; the one stored first has the greater id suffix
  (\<open>generateId\<close> appends a random suffix to the time).
\<close>

definition tie_first :: Message where
  "tie_first = \<lparr> mid = ''5-b'', chatRoomId = ''room1'', userId = ''u1'', username = ''alice'',
                  content = ''first'', timestamp = 5 \<rparr>"

definition tie_second :: Message where
  "tie_second = \<lparr> mid = ''5-a'', chatRoomId = ''room1'', userId = ''u2'', username = ''bob'',
                   content = ''second'', timestamp = 5 \<rparr>"

definition st_tie :: Redis where
  "st_tie = storeMessage (storeMessage st_book tie_first) tie_second"

text \<open>\<open>st_book\<close> after the 105 numbered messages.\<close>

definition st105 :: Redis where
  "st105 = foldl storeMessage st_book msgs105"

section \<open>Room repository: basic facts\<close>

lemma foldl_interest_chatRoomHash [simp]:
  "chatRoomHash (foldl (\<lambda>s t. s\<lparr> interestChatRooms := (interestChatRooms s)(t := f s t) \<rparr>) st ts)
     = chatRoomHash st"
  by (induction ts arbitrary: st) simp_all

lemma foldl_interest_activeChatRooms [simp]:
  "activeChatRooms (foldl (\<lambda>s t. s\<lparr> interestChatRooms := (interestChatRooms s)(t := f s t) \<rparr>) st ts)
     = activeChatRooms st"
  by (induction ts arbitrary: st) simp_all

lemma foldl_interest_chatRoomMessages [simp]:
  "chatRoomMessages (foldl (\<lambda>s t. s\<lparr> interestChatRooms := (interestChatRooms s)(t := f s t) \<rparr>) st ts)
     = chatRoomMessages st"
  by (induction ts arbitrary: st) simp_all

lemma getChatRoom_Some_hash: "getChatRoom st i = Some room \<Longrightarrow> chatRoomHash st i = Some room"
  by (auto simp: getChatRoom_def split: option.splits if_splits)

lemma getChatRoom_Some_rid: "getChatRoom st i = Some room \<Longrightarrow> rid room \<noteq> []"
  by (auto simp: getChatRoom_def split: option.splits if_splits)

lemma chatRoomHash_deactivate:
  "chatRoomHash (deactivateChatRoom st i) j =
     (case getChatRoom st i of
        None \<Rightarrow> chatRoomHash st j
      | Some room \<Rightarrow> if j = i then Some (room\<lparr> isActive := False \<rparr>) else chatRoomHash st j)"
  by (simp add: deactivateChatRoom_def Let_def split: option.splits)

lemma countInv_create: "countInv st \<Longrightarrow> countInv (snd (createChatRoom st ttl tpc c cn ints newId now))"
  by (auto simp: countInv_def createChatRoom_def Let_def)

lemma countInv_join: "countInv st \<Longrightarrow> countInv (snd (joinChatRoom st i u now))"
  by (auto simp: countInv_def joinChatRoom_def Let_def split: option.splits if_splits)

lemma countInv_deactivate: "countInv st \<Longrightarrow> countInv (deactivateChatRoom st i)"
  by (auto simp: countInv_def chatRoomHash_deactivate dest: getChatRoom_Some_hash
           split: option.splits if_splits)

lemma countInv_leave:
  assumes inv: "countInv st"
  shows "countInv (snd (leaveChatRoom st i u now))"
proof (cases "getChatRoom st i")
  case None
  with inv show ?thesis by (simp add: leaveChatRoom_def)
next
  case (Some room)
  show ?thesis
  proof (cases "filter (\<lambda>p. p \<noteq> u) (participants room) = []")
    case True
    with Some inv show ?thesis by (simp add: leaveChatRoom_def countInv_deactivate)
  next
    case False
    with Some inv show ?thesis by (simp add: leaveChatRoom_def Let_def countInv_def)
  qed
qed

lemma st_book_eval:
  "chatRoomHash st_book = (\<lambda>_. None)(''room1'' \<mapsto> room_book)"
  "activeChatRooms st_book = [''room1'']"
  "interestChatRooms st_book = (\<lambda>_. [])(''books'' := [''room1''])"
  "chatRoomMessages st_book = (\<lambda>_. [])"
  by (simp_all add: st_book_def room_book_def createChatRoom_def emptyRedis_def Let_def hSetField_def)

lemma room_book_eval:
  "room_book = \<lparr> rid = ''room1'', title = ''Book Club'', topic = ''Weekly fiction discussion'',
       creatorId = ''u1'', creatorUsername = ''alice'', participants = [''u1''],
       participantCount = 1, interests = [''books''], isActive = True,
       createdAt = 1000, lastActivity = 1000 \<rparr>"
  by (simp add: room_book_def createChatRoom_def Let_def)

lemma getChatRoom_st_book: "getChatRoom st_book ''room1'' = Some room_book"
  by (simp add: getChatRoom_def st_book_eval) (simp add: room_book_eval)

lemma interestChatRooms_foldl_hDel:
  "interestChatRooms (foldl (\<lambda>s t. s\<lparr> interestChatRooms :=
        (interestChatRooms s)(t := hDelField (interestChatRooms s t) i) \<rparr>) st ts) t'
   = (if t' \<in> set ts then hDelField (interestChatRooms st t') i else interestChatRooms st t')"
  by (induction ts arbitrary: st) (auto simp: hDelField_def)

lemma set_insertCmp: "set (insertCmp cmp x ys) = insert x (set ys)"
  by (induction ys) auto

lemma set_arraySort: "set (arraySort cmp xs) = set xs"
  by (induction xs) (simp_all add: arraySort_def set_insertCmp)

lemma set_activeRoomsOf:
  "set (activeRoomsOf st ids) = {r. \<exists>j \<in> set ids. getChatRoom st j = Some r \<and> isActive r}"
  by (auto simp: activeRoomsOf_def split: option.splits if_splits)

section \<open>C4: the participant count\<close>

text \<open>
  C4. For every room, the stored \<open>participantCount\<close> equals the length of the stored
  participant list after every \<open>createChatRoom\<close>, \<open>joinChatRoom\<close> and \<open>leaveChatRoom\<close>: the
  empty store has the property and each of the three operations keeps it.
\<close>

theorem participantCount_invariant:
  "countInv emptyRedis \<and>
   (countInv st \<longrightarrow>
      countInv (snd (createChatRoom st ttl tpc c cn ints newId now)) \<and>
      countInv (snd (joinChatRoom st i u now)) \<and>
      countInv (snd (leaveChatRoom st i u now)))"
proof -
  have "countInv emptyRedis" by (simp add: countInv_def emptyRedis_def)
  then show ?thesis using countInv_create countInv_join countInv_leave by blast
qed

theorem participantCount_invariant_witness:
  "countInv emptyRedis \<and> countInv st_book \<and>
   countInv (snd (joinChatRoom st_book ''room1'' ''u2'' 2000)) \<and>
   countInv (snd (leaveChatRoom st_book ''room1'' ''u1'' 3000)) \<and>
   map_option participantCount (getChatRoom (snd (joinChatRoom st_book ''room1'' ''u2'' 2000)) ''room1'')
     = Some 2"
proof -
  have e: "countInv emptyRedis"
    using participantCount_invariant by blast
  have b: "countInv st_book"
    unfolding st_book_def
    using e participantCount_invariant [of emptyRedis] by blast
  have j: "countInv (snd (joinChatRoom st_book ''room1'' ''u2'' 2000))"
    using b participantCount_invariant [of st_book] by blast
  have l: "countInv (snd (leaveChatRoom st_book ''room1'' ''u1'' 3000))"
    using b participantCount_invariant [of st_book] by blast
  have v: "map_option participantCount
             (getChatRoom (snd (joinChatRoom st_book ''room1'' ''u2'' 2000)) ''room1'') = Some 2"
    by (simp add: joinChatRoom_def getChatRoom_st_book Let_def)
       (simp add: room_book_eval getChatRoom_def)
  show ?thesis using e b j l v by blast
qed

section \<open>C6: the last participant's leave\<close>

text \<open>
  C6. The claim is that after a successful \<open>leaveChatRoom i u\<close> the user \<open>u\<close> is no longer in
  the participant list that \<open>getChatRoom i\<close> returns, also when \<open>u\<close> was the last participant.
  In that case the code deactivates the room and returns before it stores the filtered list:
  \<open>u1\<close> creates a room and leaves it, the call succeeds, and the stored room still lists
  \<open>u1\<close> with a count of 1.
\<close>

theorem leaveChatRoom_last_participant_kept:
  "fst (leaveChatRoom st_book ''room1'' ''u1'' 2000) = True \<and>
   map_option participants (getChatRoom (snd (leaveChatRoom st_book ''room1'' ''u1'' 2000)) ''room1'')
     = Some [''u1''] \<and>
   map_option participantCount (getChatRoom (snd (leaveChatRoom st_book ''room1'' ''u1'' 2000)) ''room1'')
     = Some 1"
  unfolding st_book_def
  by (simp add: leaveChatRoom_def createChatRoom_def emptyRedis_def Let_def getChatRoom_def
        hSetField_def deactivateChatRoom_def hDelField_def)

section \<open>C9: leaving without being a member\<close>

text \<open>
  C9. For an existing room whose participant list is not empty and does not hold \<open>u\<close>,
  \<open>leaveChatRoom\<close> returns success and rewrites the room record: \<open>lastActivity\<close> becomes the
  current time, the participant list and the count (equal to the list's length, as C4 keeps
  it) are as before.
\<close>

theorem leaveChatRoom_nonmember:
  assumes "getChatRoom st i = Some room"
    and "u \<notin> set (participants room)"
    and "participants room \<noteq> []"
    and "participantCount room = int (length (participants room))"
  shows "leaveChatRoom st i u now =
           (True, st\<lparr> chatRoomHash := (chatRoomHash st)(i \<mapsto> room\<lparr> lastActivity := now \<rparr>) \<rparr>)
         \<and> getChatRoom (snd (leaveChatRoom st i u now)) i = Some (room\<lparr> lastActivity := now \<rparr>)
         \<and> participants (room\<lparr> lastActivity := now \<rparr>) = participants room
         \<and> participantCount (room\<lparr> lastActivity := now \<rparr>) = participantCount room"
proof -
  have f: "filter (\<lambda>p. p \<noteq> u) (participants room) = participants room"
    using assms(2) by (auto simp: filter_id_conv)
  have eq: "leaveChatRoom st i u now =
           (True, st\<lparr> chatRoomHash := (chatRoomHash st)(i \<mapsto> room\<lparr> lastActivity := now \<rparr>) \<rparr>)"
    using assms(1,3) by (simp add: leaveChatRoom_def Let_def f assms(4) [symmetric])
  have "rid (room\<lparr> lastActivity := now \<rparr>) \<noteq> []"
    using getChatRoom_Some_rid [OF assms(1)] by simp
  then show ?thesis using eq by (simp add: getChatRoom_def)
qed

theorem leaveChatRoom_nonmember_witness:
  "getChatRoom st_book ''room1'' = Some room_book \<and>
   ''u3'' \<notin> set (participants room_book) \<and>
   participants room_book \<noteq> [] \<and>
   participantCount room_book = int (length (participants room_book)) \<and>
   leaveChatRoom st_book ''room1'' ''u3'' 2000 =
     (True, st_book\<lparr> chatRoomHash := (chatRoomHash st_book)(''room1'' \<mapsto> room_book\<lparr> lastActivity := 2000 \<rparr>) \<rparr>)"
proof -
  have h1: "getChatRoom st_book ''room1'' = Some room_book" by (rule getChatRoom_st_book)
  have h2: "''u3'' \<notin> set (participants room_book)" by (simp add: room_book_eval)
  have h3: "participants room_book \<noteq> []" by (simp add: room_book_eval)
  have h4: "participantCount room_book = int (length (participants room_book))"
    by (simp add: room_book_eval)
  from leaveChatRoom_nonmember [OF h1 h2 h3 h4, of 2000]
  show ?thesis using h1 h2 h3 h4 by blast
qed

section \<open>C10: failed deletion\<close>

text \<open>
  C10. \<open>deleteChatRoom\<close> returns \<open>false\<close> both when the room does not exist and when the
  requester is not its creator, and then the store is the one it was given; the DELETE
  handler answers both with 403 FORBIDDEN, never with 404, and no handler error changes
  the store.
\<close>

theorem deleteChatRoom_failure:
  "(getChatRoom st i = None \<or> (\<exists>room. getChatRoom st i = Some room \<and> creatorId room \<noteq> u)
      \<longrightarrow> deleteChatRoom st i u = (False, st)) \<and>
   (\<not> fst (deleteChatRoom st i u) \<longrightarrow> snd (deleteChatRoom st i u) = st) \<and>
   (ctxUserId ctx = Some u \<and> u \<noteq> [] \<and>
     (getChatRoom st i = None \<or> (\<exists>room. getChatRoom st i = Some room \<and> creatorId room \<noteq> u))
      \<longrightarrow> deleteChatRoomHandler st ctx i now = (ErrorResponse 403 ''FORBIDDEN'', st, [])) \<and>
   (\<forall>status code. fst (deleteChatRoomHandler st ctx i now) = ErrorResponse status code
      \<longrightarrow> fst (snd (deleteChatRoomHandler st ctx i now)) = st \<and> status \<noteq> 404)"
proof -
  have a: "getChatRoom st i = None \<or> (\<exists>room. getChatRoom st i = Some room \<and> creatorId room \<noteq> u)
      \<Longrightarrow> deleteChatRoom st i u = (False, st)" for u
    by (auto simp: deleteChatRoom_def)
  have b: "\<not> fst (deleteChatRoom st i u) \<Longrightarrow> snd (deleteChatRoom st i u) = st" for u
    by (auto simp: deleteChatRoom_def Let_def split: option.splits if_splits)
  have c: "ctxUserId ctx = Some u \<Longrightarrow> u \<noteq> [] \<Longrightarrow>
     (getChatRoom st i = None \<or> (\<exists>room. getChatRoom st i = Some room \<and> creatorId room \<noteq> u))
      \<Longrightarrow> deleteChatRoomHandler st ctx i now = (ErrorResponse 403 ''FORBIDDEN'', st, [])"
    using a [of u] by (simp add: deleteChatRoomHandler_def)
  have b': "deleteChatRoom st i u = (False, s') \<Longrightarrow> s' = st" for u s'
    using b [of u] by simp
  have d: "fst (deleteChatRoomHandler st ctx i now) = ErrorResponse status code
      \<Longrightarrow> fst (snd (deleteChatRoomHandler st ctx i now)) = st \<and> status \<noteq> 404" for status code
    by (auto simp: deleteChatRoomHandler_def Let_def dest: b'
             split: option.splits if_splits prod.splits)
  show ?thesis using a b c d by blast
qed

theorem deleteChatRoom_failure_witness:
  "getChatRoom st_book ''nowhere'' = None \<and>
   deleteChatRoom st_book ''nowhere'' ''u2'' = (False, st_book) \<and>
   getChatRoom st_book ''room1'' = Some room_book \<and> creatorId room_book \<noteq> ''u2'' \<and>
   deleteChatRoom st_book ''room1'' ''u2'' = (False, st_book) \<and>
   deleteChatRoomHandler st_book \<lparr> ctxUserId = Some ''u2'', ctxUsername = Some ''bob'' \<rparr> ''nowhere'' 2000
     = (ErrorResponse 403 ''FORBIDDEN'', st_book, []) \<and>
   deleteChatRoomHandler st_book \<lparr> ctxUserId = Some ''u2'', ctxUsername = Some ''bob'' \<rparr> ''room1'' 2000
     = (ErrorResponse 403 ''FORBIDDEN'', st_book, [])"
proof -
  have n: "getChatRoom st_book ''nowhere'' = None"
    by (simp add: getChatRoom_def st_book_eval)
  have r: "getChatRoom st_book ''room1'' = Some room_book" by (rule getChatRoom_st_book)
  have c: "creatorId room_book \<noteq> ''u2''" by (simp add: room_book_eval)
  have u: "ctxUserId \<lparr> ctxUserId = Some ''u2'', ctxUsername = Some ''bob'' \<rparr> = Some ''u2''"
          "''u2'' \<noteq> []"
    by simp_all
  note t1 = deleteChatRoom_failure [of st_book "''nowhere''" "''u2''"
              "\<lparr> ctxUserId = Some ''u2'', ctxUsername = Some ''bob'' \<rparr>" 2000]
  note t2 = deleteChatRoom_failure [of st_book "''room1''" "''u2''"
              "\<lparr> ctxUserId = Some ''u2'', ctxUsername = Some ''bob'' \<rparr>" 2000]
  show ?thesis using n r c u t1 t2 by blast
qed

subsection \<open>The store invariants of the room indexes\<close>

text \<open>
  The empty store has them; \<open>createChatRoom\<close> with an id not in use, \<open>joinChatRoom\<close>,
  \<open>deactivateChatRoom\<close> and \<open>leaveChatRoom\<close> keep them.
\<close>

lemma interestChatRooms_foldl_hSet:
  "interestChatRooms (foldl (\<lambda>s t. s\<lparr> interestChatRooms :=
        (interestChatRooms s)(t := hSetField (interestChatRooms s t) i) \<rparr>) st ts) t'
   = (if t' \<in> set ts then hSetField (interestChatRooms st t') i else interestChatRooms st t')"
  by (induction ts arbitrary: st) (auto simp: hSetField_def)

lemma store_invariants_empty: "keyInv emptyRedis" "indexInv emptyRedis"
  by (simp_all add: keyInv_def indexInv_def emptyRedis_def)

lemma keyInv_createChatRoom:
  "keyInv st \<Longrightarrow> keyInv (snd (createChatRoom st ttl tpc c cn ints newId now))"
  by (auto simp: keyInv_def createChatRoom_def Let_def)

lemma indexInv_createChatRoom:
  assumes "indexInv st" and fresh: "chatRoomHash st newId = None"
  shows "indexInv (snd (createChatRoom st ttl tpc c cn ints newId now))"
  unfolding indexInv_def
proof (intro allI impI)
  fix i t
  let ?st' = "snd (createChatRoom st ttl tpc c cn ints newId now)"
  assume m: "i \<in> set (interestChatRooms ?st' t)"
  have idx: "interestChatRooms ?st' t =
      (if t \<in> set ints then hSetField (interestChatRooms st t) newId else interestChatRooms st t)"
    by (simp add: createChatRoom_def Let_def interestChatRooms_foldl_hSet)
  have h: "chatRoomHash ?st' = (chatRoomHash st)(newId \<mapsto> fst (createChatRoom st ttl tpc c cn ints newId now))"
    by (simp add: createChatRoom_def Let_def)
  have ints': "interests (fst (createChatRoom st ttl tpc c cn ints newId now)) = ints"
    by (simp add: createChatRoom_def Let_def)
  show "\<exists>room. chatRoomHash ?st' i = Some room \<and> t \<in> set (interests room)"
  proof (cases "i = newId")
    case True
    show ?thesis
    proof (cases "t \<in> set ints")
      case True
      with \<open>i = newId\<close> show ?thesis by (simp add: h ints')
    next
      case False
      with m idx have "i \<in> set (interestChatRooms st t)" by simp
      with assms(1) obtain room where "chatRoomHash st i = Some room" "t \<in> set (interests room)"
        unfolding indexInv_def by blast
      with fresh \<open>i = newId\<close> show ?thesis by simp
    qed
  next
    case False
    with m idx have "i \<in> set (interestChatRooms st t)"
      by (auto simp: hSetField_def split: if_splits)
    with assms(1) obtain room where "chatRoomHash st i = Some room" "t \<in> set (interests room)"
      unfolding indexInv_def by blast
    with False show ?thesis by (simp add: h)
  qed
qed


lemma indexInv_kept:
  assumes "indexInv st"
    and "\<And>t. set (interestChatRooms st' t) \<subseteq> set (interestChatRooms st t)"
    and "\<And>j. map_option interests (chatRoomHash st' j) = map_option interests (chatRoomHash st j)"
  shows "indexInv st'"
  unfolding indexInv_def
proof (intro allI impI)
  fix i t
  assume "i \<in> set (interestChatRooms st' t)"
  with assms(2) have "i \<in> set (interestChatRooms st t)" by blast
  with assms(1) obtain room where r: "chatRoomHash st i = Some room" "t \<in> set (interests room)"
    unfolding indexInv_def by blast
  from assms(3) [of i] r(1) obtain room' where "chatRoomHash st' i = Some room'"
    "interests room' = interests room"
    by (cases "chatRoomHash st' i") auto
  with r(2) show "\<exists>room. chatRoomHash st' i = Some room \<and> t \<in> set (interests room)" by simp
qed

lemma keyInv_joinChatRoom: "keyInv st \<Longrightarrow> keyInv (snd (joinChatRoom st i u now))"
  by (auto simp: keyInv_def joinChatRoom_def Let_def dest: getChatRoom_Some_hash
           split: option.splits if_splits)

lemma indexInv_joinChatRoom: "indexInv st \<Longrightarrow> indexInv (snd (joinChatRoom st i u now))"
  by (erule indexInv_kept)
     (auto simp: joinChatRoom_def Let_def dest: getChatRoom_Some_hash split: option.splits if_splits)

lemma keyInv_deactivateChatRoom: "keyInv st \<Longrightarrow> keyInv (deactivateChatRoom st i)"
  by (auto simp: keyInv_def chatRoomHash_deactivate dest: getChatRoom_Some_hash
           split: option.splits if_splits)

lemma indexInv_deactivateChatRoom: "indexInv st \<Longrightarrow> indexInv (deactivateChatRoom st i)"
proof (erule indexInv_kept)
  show "set (interestChatRooms (deactivateChatRoom st i) t) \<subseteq> set (interestChatRooms st t)" for t
  proof -
    have "interestChatRooms (deactivateChatRoom st i) t = interestChatRooms st t
          \<or> interestChatRooms (deactivateChatRoom st i) t = hDelField (interestChatRooms st t) i"
      by (simp add: deactivateChatRoom_def Let_def interestChatRooms_foldl_hDel split: option.splits)
    then show ?thesis by (auto simp: hDelField_def)
  qed
  show "map_option interests (chatRoomHash (deactivateChatRoom st i) j)
          = map_option interests (chatRoomHash st j)" for j
    by (auto simp: chatRoomHash_deactivate dest: getChatRoom_Some_hash split: option.splits)
qed

lemma keyInv_leaveChatRoom: "keyInv st \<Longrightarrow> keyInv (snd (leaveChatRoom st i u now))"
  by (auto simp: leaveChatRoom_def Let_def keyInv_deactivateChatRoom split: option.splits)
     (auto simp: keyInv_def dest: getChatRoom_Some_hash)

lemma indexInv_leaveChatRoom:
  assumes "indexInv st"
  shows "indexInv (snd (leaveChatRoom st i u now))"
proof (cases "getChatRoom st i")
  case None
  with assms show ?thesis by (simp add: leaveChatRoom_def)
next
  case (Some room)
  show ?thesis
  proof (cases "filter (\<lambda>p. p \<noteq> u) (participants room) = []")
    case True
    with Some assms show ?thesis by (simp add: leaveChatRoom_def indexInv_deactivateChatRoom)
  next
    case False
    have "indexInv (st\<lparr> chatRoomHash := (chatRoomHash st)(i \<mapsto>
             room\<lparr> participants := filter (\<lambda>p. p \<noteq> u) (participants room),
                   participantCount := int (length (filter (\<lambda>p. p \<noteq> u) (participants room))),
                   lastActivity := now \<rparr>) \<rparr>)"
      using assms
      by (rule indexInv_kept) (auto simp: getChatRoom_Some_hash [OF Some])
    with Some False show ?thesis by (simp add: leaveChatRoom_def Let_def)
  qed
qed

section \<open>C3: the last participant's leave deactivates the room\<close>

text \<open>
  C3. When the only participant \<open>u\<close> of a room leaves it, \<open>leaveChatRoom\<close> succeeds and the
  room is deactivated: its id is in the active-room index no more and in no interest index
  (the indexes held it only under the room's own tags, as \<open>createChatRoom\<close> files it),
  \<open>getActiveChatRooms\<close> lists no room with that id (hash keys being the ids of the records
  they hold), \<open>getChatRoom\<close> still returns the record, unchanged but for
  \<open>isActive = false\<close>, and every message log is as it was.
\<close>

theorem leaveChatRoom_last_deactivates:
  assumes g: "getChatRoom st i = Some room"
    and p: "participants room = [u]"
    and ki: "keyInv st"
    and ii: "indexInv st"
  shows "\<exists>st'. leaveChatRoom st i u now = (True, st') \<and>
           i \<notin> set (activeChatRooms st') \<and>
           (\<forall>t. i \<notin> set (interestChatRooms st' t)) \<and>
           (\<forall>r \<in> set (getActiveChatRooms st'). rid r \<noteq> i) \<and>
           getChatRoom st' i = Some (room\<lparr> isActive := False \<rparr>) \<and>
           chatRoomMessages st' = chatRoomMessages st"
proof -
  let ?st' = "deactivateChatRoom st i"
  have key: "\<forall>j r. chatRoomHash st j = Some r \<longrightarrow> rid r = j"
    using ki by (simp add: keyInv_def)
  have idx: "\<forall>t. i \<in> set (interestChatRooms st t) \<longrightarrow> t \<in> set (interests room)"
    using ii getChatRoom_Some_hash [OF g] by (fastforce simp: indexInv_def)
  have l: "leaveChatRoom st i u now = (True, ?st')"
    using g p by (simp add: leaveChatRoom_def)
  have a: "i \<notin> set (activeChatRooms ?st')"
    using g by (simp add: deactivateChatRoom_def Let_def hDelField_def)
  have t: "i \<notin> set (interestChatRooms ?st' t)" for t
    using g idx by (simp add: deactivateChatRoom_def Let_def interestChatRooms_foldl_hDel)
      (auto simp: hDelField_def)
  have h: "chatRoomHash ?st' j = (if j = i then Some (room\<lparr> isActive := False \<rparr>) else chatRoomHash st j)" for j
    using g by (simp add: chatRoomHash_deactivate)
  have r: "getChatRoom ?st' i = Some (room\<lparr> isActive := False \<rparr>)"
    using getChatRoom_Some_rid [OF g] by (simp add: getChatRoom_def h)
  have m: "chatRoomMessages ?st' = chatRoomMessages st"
    using g by (simp add: deactivateChatRoom_def Let_def)
  have q: "rid r \<noteq> i" if "r \<in> set (getActiveChatRooms ?st')" for r
  proof -
    from that obtain j where j: "j \<in> set (activeChatRooms ?st')" "getChatRoom ?st' j = Some r"
      by (auto simp: getActiveChatRooms_def set_arraySort set_activeRoomsOf)
    from j(1) a have ne: "j \<noteq> i" by auto
    from j(2) have "chatRoomHash ?st' j = Some r" by (rule getChatRoom_Some_hash)
    with ne have "chatRoomHash st j = Some r" by (simp add: h)
    with key have "rid r = j" by blast
    with ne show ?thesis by simp
  qed
  show ?thesis using l a t r m q by blast
qed

theorem leaveChatRoom_last_deactivates_witness:
  "getChatRoom st_book ''room1'' = Some room_book \<and>
   participants room_book = [''u1''] \<and>
   keyInv st_book \<and> indexInv st_book \<and>
   (\<exists>st'. leaveChatRoom st_book ''room1'' ''u1'' 2000 = (True, st') \<and>
           ''room1'' \<notin> set (activeChatRooms st') \<and>
           (\<forall>t. ''room1'' \<notin> set (interestChatRooms st' t)) \<and>
           (\<forall>r \<in> set (getActiveChatRooms st'). rid r \<noteq> ''room1'') \<and>
           getChatRoom st' ''room1'' = Some (room_book\<lparr> isActive := False \<rparr>) \<and>
           chatRoomMessages st' = chatRoomMessages st_book)"
proof -
  have h1: "getChatRoom st_book ''room1'' = Some room_book" by (rule getChatRoom_st_book)
  have h2: "participants room_book = [''u1'']" by (simp add: room_book_eval)
  have h3: "keyInv st_book"
    by (simp add: keyInv_def st_book_eval room_book_eval)
  have h4: "indexInv st_book"
    by (simp add: indexInv_def st_book_eval room_book_eval)
  from leaveChatRoom_last_deactivates [OF h1 h2 h3 h4, of 2000]
  show ?thesis using h1 h2 h3 h4 by blast
qed

section \<open>C8: validation of the create-room request\<close>

text \<open>
  C8. The claim is that the create-room request is answered with 400 unless the title has
  3 to 100 characters, the topic 10 to 200 and the interest list 1 to 5 valid ids. The
  handler only rejects an empty or over-long title and topic and an invalid interest id: a
  request with the title \<open>ab\<close>, the topic \<open>hello\<close> and no interest is answered with 201 and
  the room is stored, and so is a request with six valid interests.
\<close>

theorem createChatRoomHandler_accepts_short:
  "fst (createChatRoomHandler emptyRedis ctx_alice req_short ''room9'' 1000) =
     SuccessResponse 201 \<lparr> rid = ''room9'', title = ''ab'', topic = ''hello'',
       creatorId = ''u1'', creatorUsername = ''alice'', participants = [''u1''],
       participantCount = 1, interests = [], isActive = True,
       createdAt = 1000, lastActivity = 1000 \<rparr> \<and>
   getChatRoom (fst (snd (createChatRoomHandler emptyRedis ctx_alice req_short ''room9'' 1000))) ''room9''
     \<noteq> None \<and>
   (\<exists>room. fst (createChatRoomHandler emptyRedis ctx_alice req_six ''room9'' 1000) = SuccessResponse 201 room
      \<and> length (interests room) = 6)"
  by (simp add: createChatRoomHandler_def ctx_alice_def req_short_def req_six_def
        validateChatRoomTitle_def validateChatRoomTopic_def trim_def isWhiteSpace_def
        INTEREST_TAG_IDS_def createChatRoom_def Let_def addUserToActiveChat_def
        getUserProfile_def emptyRedis_def hSetField_def getChatRoom_def)


section \<open>C5: ranking by matched interests\<close>

lemma insertCmp_insort_key:
  assumes "\<And>a b. (cmp a b \<le> 0) = (key a \<le> key b)"
  shows "insertCmp cmp x ys = insort_key key x ys"
  by (induction ys) (simp_all add: assms)

lemma arraySort_sort_key:
  assumes "\<And>a b. (cmp a b \<le> 0) = (key a \<le> key b)"
  shows "arraySort cmp xs = sort_key key xs"
  by (induction xs) (simp_all add: arraySort_def sort_key_def insertCmp_insort_key [OF assms])

lemma interestCmp_rankKey: "(interestCmp ints a b \<le> 0) = (rankKey ints a \<le> rankKey ints b)"
  by (auto simp: interestCmp_def rankKey_def Let_def less_eq_prod_def)

lemma rankKey_ranksBefore: "(rankKey ints a \<le> rankKey ints b) = ranksBefore ints a b"
  by (auto simp: ranksBefore_def rankKey_def less_eq_prod_def)

lemma foldl_setAdd: "set (foldl setAdd acc xs) = set acc \<union> set xs"
  by (induction xs arbitrary: acc) (auto simp: setAdd_def)

lemma distinct_foldl_setAdd: "distinct acc \<Longrightarrow> distinct (foldl setAdd acc xs)"
  by (induction xs arbitrary: acc) (auto simp: setAdd_def)

lemma set_interest_fold:
  "set (foldl (\<lambda>chatRoomIds interest. foldl setAdd chatRoomIds (interestChatRooms st interest)) acc ints)
     = set acc \<union> (\<Union>t\<in>set ints. set (interestChatRooms st t))"
  by (induction ints arbitrary: acc) (auto simp: foldl_setAdd)

lemma distinct_interest_fold:
  "distinct acc \<Longrightarrow>
   distinct (foldl (\<lambda>chatRoomIds interest. foldl setAdd chatRoomIds (interestChatRooms st interest)) acc ints)"
  by (induction ints arbitrary: acc) (auto simp: distinct_foldl_setAdd)

lemma st_ab_eval:
  "map (matchCount [''gaming'', ''music'']) (getChatRoomsByInterests st_ab [''gaming'', ''music''])
     = [2, 1]"
  "map rid (getChatRoomsByInterests st_ab [''gaming'', ''music'']) = [''A'', ''B'']"
  "map lastActivity (getChatRoomsByInterests st_ab [''gaming'', ''music'']) = [1000, 1000]"
  "interestRoomIds st_ab [''gaming'', ''music''] = [''B'', ''A'']"
  unfolding st_ab_def by code_simp+

text \<open>
  C5 as stated fails for the empty tag list: no tag index is read, yet the result is every
  active room (the guard at the head of \<open>getChatRoomsByInterests\<close>).
\<close>

theorem getChatRoomsByInterests_empty_counterexample:
  "interestRoomIds st_book [] = [] \<and> map rid (getChatRoomsByInterests st_book []) = [''room1'']"
  unfolding st_book_def by code_simp


text \<open>
  C5, amended. For a non-empty tag list \<open>getChatRoomsByInterests\<close> reads the room ids of
  the given tag indexes without duplicates, returns exactly the rooms among them that exist
  and are active, ordered by descending count of matched tags and then by descending
  \<open>lastActivity\<close>; so a room that matches more tags comes before one that matches fewer.
  For the empty tag list it returns \<open>getActiveChatRooms\<close>.
\<close>

theorem getChatRoomsByInterests_ranking:
  "(ints \<noteq> [] \<longrightarrow>
      distinct (interestRoomIds st ints) \<and>
      set (interestRoomIds st ints) = (\<Union>t\<in>set ints. set (interestChatRooms st t)) \<and>
      mset (getChatRoomsByInterests st ints) = mset (activeRoomsOf st (interestRoomIds st ints)) \<and>
      set (getChatRoomsByInterests st ints) =
        {r. \<exists>t\<in>set ints. \<exists>i\<in>set (interestChatRooms st t). getChatRoom st i = Some r \<and> isActive r} \<and>
      sorted_wrt (ranksBefore ints) (getChatRoomsByInterests st ints) \<and>
      (\<forall>k l. k < length (getChatRoomsByInterests st ints) \<and>
             l < length (getChatRoomsByInterests st ints) \<and>
             matchCount ints (getChatRoomsByInterests st ints ! l)
               < matchCount ints (getChatRoomsByInterests st ints ! k) \<longrightarrow> k < l)) \<and>
   getChatRoomsByInterests st [] = getActiveChatRooms st"
proof -
  have e: "getChatRoomsByInterests st [] = getActiveChatRooms st"
    by (simp add: getChatRoomsByInterests_def)
  have d: "distinct (interestRoomIds st ints)"
    by (simp add: interestRoomIds_def distinct_interest_fold)
  have s: "set (interestRoomIds st ints) = (\<Union>t\<in>set ints. set (interestChatRooms st t))"
    by (simp add: interestRoomIds_def set_interest_fold)
  have r: "getChatRoomsByInterests st ints =
             sort_key (rankKey ints) (activeRoomsOf st (interestRoomIds st ints))" if "ints \<noteq> []"
    using that by (simp add: getChatRoomsByInterests_def arraySort_sort_key [OF interestCmp_rankKey])
  have m: "mset (getChatRoomsByInterests st ints) = mset (activeRoomsOf st (interestRoomIds st ints))"
    if "ints \<noteq> []"
    using r [OF that] by simp
  have q: "set (getChatRoomsByInterests st ints) =
        {r. \<exists>t\<in>set ints. \<exists>i\<in>set (interestChatRooms st t). getChatRoom st i = Some r \<and> isActive r}"
    if "ints \<noteq> []"
    using r [OF that] by (auto simp: set_activeRoomsOf s)
  have o: "sorted_wrt (ranksBefore ints) (getChatRoomsByInterests st ints)" if "ints \<noteq> []"
  proof -
    have "sorted (map (rankKey ints) (getChatRoomsByInterests st ints))"
      using r [OF that] by simp
    then show ?thesis
      by (simp add: sorted_map rankKey_ranksBefore)
  qed
  have b: "k < l" if "ints \<noteq> []"
    and "k < length (getChatRoomsByInterests st ints)"
    and "l < length (getChatRoomsByInterests st ints)"
    and "matchCount ints (getChatRoomsByInterests st ints ! l)
           < matchCount ints (getChatRoomsByInterests st ints ! k)" for k l
  proof (rule ccontr)
    assume "\<not> k < l"
    then consider "l = k" | "l < k" by linarith
    then show False
    proof cases
      case 1
      with that(4) show False by simp
    next
      case 2
      with o [OF that(1)] that(2)
      have "ranksBefore ints (getChatRoomsByInterests st ints ! l) (getChatRoomsByInterests st ints ! k)"
        by (simp add: sorted_wrt_iff_nth_less)
      with that(4) show False by (simp add: ranksBefore_def)
    qed
  qed
  show ?thesis using e d s m q o b by blast
qed

theorem getChatRoomsByInterests_ranking_witness:
  "[''gaming'', ''music''] \<noteq> ([] :: string list) \<and>
   sorted_wrt (ranksBefore [''gaming'', ''music''])
     (getChatRoomsByInterests st_ab [''gaming'', ''music'']) \<and>
   interestRoomIds st_ab [''gaming'', ''music''] = [''B'', ''A''] \<and>
   map rid (getChatRoomsByInterests st_ab [''gaming'', ''music'']) = [''A'', ''B''] \<and>
   map lastActivity (getChatRoomsByInterests st_ab [''gaming'', ''music'']) = [1000, 1000] \<and>
   map (matchCount [''gaming'', ''music'']) (getChatRoomsByInterests st_ab [''gaming'', ''music''])
     = [2, 1]"
proof -
  have h: "[''gaming'', ''music''] \<noteq> ([] :: string list)" by simp
  from getChatRoomsByInterests_ranking [of "[''gaming'', ''music'']" st_ab] h
  have "sorted_wrt (ranksBefore [''gaming'', ''music''])
          (getChatRoomsByInterests st_ab [''gaming'', ''music''])"
    by blast
  then show ?thesis using h st_ab_eval by simp
qed


section \<open>Message repository: basic facts\<close>

lemma zRemRangeByRank_prefix:
  "0 < k \<Longrightarrow> k \<le> length l \<Longrightarrow> zRemRangeByRank l 0 (int k - 1) = drop k l"
  by (simp add: zRemRangeByRank_def Let_def min_def)

lemma createMessage_log:
  "chatRoomMessages (snd (createMessage st r u n c i t)) r' =
     (if r' = r
      then retain (zAdd (chatRoomMessages st r)
             \<lparr> mid = i, chatRoomId = r, userId = u, username = n, content = c, timestamp = t \<rparr>)
      else chatRoomMessages st r')"
proof -
  let ?l = "zAdd (chatRoomMessages st r)
             \<lparr> mid = i, chatRoomId = r, userId = u, username = n, content = c, timestamp = t \<rparr>"
  have "zRemRangeByRank ?l 0 (int (length ?l) - 100 - 1) = drop (length ?l - 100) ?l"
    if "100 < length ?l"
  proof -
    have "int (length ?l) - 100 - 1 = int (length ?l - 100) - 1" using that by simp
    then show ?thesis
      using zRemRangeByRank_prefix [of "length ?l - 100" ?l] that by simp
  qed
  then show ?thesis
    by (simp add: createMessage_def Let_def MESSAGE_HISTORY_LIMIT_def retain_def)
qed

lemma Message_eta:
  "\<lparr> mid = mid m, chatRoomId = chatRoomId m, userId = userId m, username = username m,
      content = content m, timestamp = timestamp m \<rparr> = (m :: Message)"
  by (cases m) simp

lemma storeMessage_log:
  "chatRoomMessages (storeMessage st m) r =
     (if r = chatRoomId m then retain (zAdd (chatRoomMessages st (chatRoomId m)) m)
      else chatRoomMessages st r)"
  by (simp add: storeMessage_def createMessage_log Message_eta)

lemma length_retain: "length (retain l) \<le> 100"
  by (simp add: retain_def)

lemma foldl_storeMessage_log:
  "\<forall>m\<in>set ms. chatRoomId m = r \<Longrightarrow>
   chatRoomMessages (foldl storeMessage st ms) r
     = foldl (\<lambda>l m. retain (zAdd l m)) (chatRoomMessages st r) ms"
  by (induction ms arbitrary: st) (simp_all add: storeMessage_log)

lemma insort_key_drop:
  "sorted (map f l) \<Longrightarrow>
   drop 1 (insort_key f x (drop k l)) = drop (Suc k) (insort_key f x l)"
proof (induction l arbitrary: k)
  case Nil
  then show ?case by simp
next
  case (Cons y ys)
  show ?case
  proof (cases k)
    case 0
    then show ?thesis by simp
  next
    case (Suc k')
    show ?thesis
    proof (cases "f x \<le> f y")
      case True
      have "\<forall>z\<in>set (drop k' ys). f x \<le> f z"
        using Cons.prems True by (auto dest!: in_set_dropD)
      then have "insort_key f x (drop k' ys) = x # drop k' ys"
        by (cases "drop k' ys") simp_all
      with True Suc show ?thesis by simp
    next
      case False
      with Suc Cons show ?thesis by simp
    qed
  qed
qed

lemma sort_key_snoc:
  assumes "inj_on f (set (xs @ [x]))"
  shows "sort_key f (xs @ [x]) = insort_key f x (sort_key f xs)"
proof -
  have "inj_on f (set xs)" using assms by (simp add: inj_on_def)
  then show ?thesis using assms by (simp add: sort_key_conv_fold)
qed

lemma retained_log:
  assumes "distinct (map stringifyMessage ms)"
  shows "foldl (\<lambda>l m. retain (zAdd l m)) [] ms = drop (length ms - 100) (sort_key zKey ms)"
  using assms
proof (induction ms rule: rev_induct)
  case Nil
  then show ?case by simp
next
  case (snoc x xs)
  let ?S = "sort_key zKey xs"
  let ?k = "length xs - 100"
  from snoc.prems have dx: "distinct (map stringifyMessage xs)"
    and ni: "stringifyMessage x \<notin> stringifyMessage ` set xs"
    by simp_all
  have nx: "\<forall>y\<in>set xs. stringifyMessage y \<noteq> stringifyMessage x"
  proof
    fix y
    assume "y \<in> set xs"
    then have "stringifyMessage y \<in> stringifyMessage ` set xs" by (rule imageI)
    with ni show "stringifyMessage y \<noteq> stringifyMessage x" by metis
  qed
  have injs: "inj_on stringifyMessage (set (xs @ [x]))"
    using snoc.prems by (simp only: distinct_map)
  have inj: "inj_on zKey (set (xs @ [x]))"
  proof (rule inj_onI)
    fix a b
    assume a: "a \<in> set (xs @ [x])" and b: "b \<in> set (xs @ [x])" and k: "zKey a = zKey b"
    from k have e: "stringifyMessage a = stringifyMessage b" by (simp add: zKey_def)
    show "a = b" by (rule inj_onD [OF injs e a b])
  qed
  have ih: "foldl (\<lambda>l m. retain (zAdd l m)) [] xs = drop ?k ?S"
    using snoc.IH dx by simp
  have "filter (\<lambda>y. stringifyMessage y \<noteq> stringifyMessage x) (drop ?k ?S) = drop ?k ?S"
    using nx by (auto simp: filter_id_conv dest!: in_set_dropD)
  then have z: "zAdd (drop ?k ?S) x = insort_key zKey x (drop ?k ?S)"
    by (simp add: zAdd_def)
  have len: "length (insort_key zKey x (drop ?k ?S)) = Suc (length xs - ?k)"
    by simp
  have "retain (insort_key zKey x (drop ?k ?S)) = drop (length (xs @ [x]) - 100) (insort_key zKey x ?S)"
  proof (cases "100 \<le> length xs")
    case True
    then have "length (insort_key zKey x (drop ?k ?S)) - 100 = 1" by simp
    then have "retain (insort_key zKey x (drop ?k ?S)) = drop 1 (insort_key zKey x (drop ?k ?S))"
      unfolding retain_def by simp
    also have "\<dots> = drop (Suc ?k) (insort_key zKey x ?S)"
      by (rule insort_key_drop) simp
    also have "Suc ?k = length (xs @ [x]) - 100" using True by simp
    finally show ?thesis .
  next
    case False
    then show ?thesis by (simp add: retain_def)
  qed
  then show ?case
    by (simp add: ih z sort_key_snoc [OF inj])
qed

lemma increasing_sorted_zKey:
  "sorted_wrt (<) (map timestamp ms) \<Longrightarrow> sorted (map zKey ms)"
  by (induction ms) (auto simp: zKey_def less_eq_prod_def)

subsection \<open>Decimal strings: \<open>parseInt\<close> undoes \<open>showInt\<close>, and a member shows its timestamp\<close>

lemma digitValue_digitChar: "d < 10 \<Longrightarrow> digitValue (digitChar d) = d"
proof -
  assume "d < 10"
  then have "d = 0 \<or> d = 1 \<or> d = 2 \<or> d = 3 \<or> d = 4 \<or> d = 5 \<or> d = 6 \<or> d = 7
    \<or> d = 8 \<or> d = 9"
    by arith
  then show ?thesis
    by (elim disjE) (simp_all add: digitChar_def digitValue_def)
qed

lemma showNat_digits: "c \<in> set (showNat n) \<Longrightarrow> digitValue c < 10"
proof (induction n rule: showNat.induct)
  case (1 n)
  show ?case
  proof (cases "n < 10")
    case True
    with "1.prems" have "c = digitChar n" by (simp add: showNat.simps [of n])
    with True show ?thesis by (simp add: digitValue_digitChar)
  next
    case False
    with "1.prems" have "c \<in> set (showNat (n div 10)) \<or> c = digitChar (n mod 10)"
      by (auto simp: showNat.simps [of n])
    then show ?thesis
    proof
      assume "c \<in> set (showNat (n div 10))"
      with False "1.IH" show ?thesis by simp
    next
      assume "c = digitChar (n mod 10)"
      then show ?thesis by (simp add: digitValue_digitChar)
    qed
  qed
qed

lemma showNat_nonempty: "showNat n \<noteq> []"
  by (simp add: showNat.simps [of n])

lemma readDigits_append:
  "\<forall>c\<in>set xs. digitValue c < r \<Longrightarrow>
   readDigits r (xs @ ys) acc = readDigits r ys (readDigits r xs acc)"
  by (induction xs arbitrary: acc) simp_all

lemma readDigits_showNat: "readDigits 10 (showNat n) None = Some n"
proof (induction n rule: showNat.induct)
  case (1 n)
  show ?case
  proof (cases "n < 10")
    case True
    then show ?thesis by (simp add: showNat.simps [of n] digitValue_digitChar)
  next
    case False
    have "readDigits 10 (showNat (n div 10) @ [digitChar (n mod 10)]) None
            = readDigits 10 [digitChar (n mod 10)] (readDigits 10 (showNat (n div 10)) None)"
      by (rule readDigits_append) (simp add: showNat_digits)
    also have "\<dots> = readDigits 10 [digitChar (n mod 10)] (Some (n div 10))"
      using False "1.IH" by simp
    also have "\<dots> = Some n"
      by (simp add: digitValue_digitChar)
    finally show ?thesis using False by (simp add: showNat.simps [of n])
  qed
qed

lemma digit_not_special:
  assumes "digitValue c < 10"
  shows "\<not> isWhiteSpace c" "c \<noteq> CHR ''-''" "c \<noteq> CHR ''+''" "c \<noteq> CHR ''x''" "c \<noteq> CHR ''X''"
    "c \<noteq> CHR '':''"
  using assms by (auto simp: isWhiteSpace_def digitValue_def)

lemma parseInt_showNat: "parseInt (showNat n) = Some (int n)"
proof -
  obtain c cs where s: "showNat n = c # cs"
    using showNat_nonempty [of n] by (cases "showNat n") auto
  have c: "digitValue c < 10" using showNat_digits [of c n] s by simp
  have nohex: "take 2 (c # cs) \<noteq> ''0x''" "take 2 (c # cs) \<noteq> ''0X''"
  proof -
    have "cs \<noteq> [] \<Longrightarrow> digitValue (hd cs) < 10"
      using showNat_digits [of "hd cs" n] s by (cases cs) auto
    then have "cs \<noteq> [] \<Longrightarrow> hd cs \<noteq> CHR ''x'' \<and> hd cs \<noteq> CHR ''X''"
      using digit_not_special by blast
    then show "take 2 (c # cs) \<noteq> ''0x''" "take 2 (c # cs) \<noteq> ''0X''"
      by (cases cs; auto)+
  qed
  have "parseInt (c # cs) = Some (int n)"
    using digit_not_special [OF c] nohex readDigits_showNat [of n]
    by (auto simp: parseInt_def Let_def s simp del: readDigits.simps)
  then show ?thesis by (simp add: s)
qed

lemma parseInt_showInt: "parseInt (showInt i) = Some i"
proof (cases "i < 0")
  case False
  then show ?thesis by (simp add: showInt_def parseInt_showNat)
next
  case True
  obtain c cs where s: "showNat (nat (- i)) = c # cs"
    using showNat_nonempty [of "nat (- i)"] by (cases "showNat (nat (- i))") auto
  have c: "digitValue c < 10" using showNat_digits [of c "nat (- i)"] s by simp
  have nohex: "take 2 (c # cs) \<noteq> ''0x''" "take 2 (c # cs) \<noteq> ''0X''"
  proof -
    have "cs \<noteq> [] \<Longrightarrow> digitValue (hd cs) < 10"
      using showNat_digits [of "hd cs" "nat (- i)"] s by (cases cs) auto
    then have "cs \<noteq> [] \<Longrightarrow> hd cs \<noteq> CHR ''x'' \<and> hd cs \<noteq> CHR ''X''"
      using digit_not_special by blast
    then show "take 2 (c # cs) \<noteq> ''0x''" "take 2 (c # cs) \<noteq> ''0X''"
      by (cases cs; auto)+
  qed
  have "parseInt (CHR ''-'' # c # cs) = Some (- int (nat (- i)))"
    using nohex readDigits_showNat [of "nat (- i)"]
    by (auto simp: parseInt_def Let_def s isWhiteSpace_def simp del: readDigits.simps)
  with True show ?thesis by (simp add: showInt_def s)
qed

lemma showInt_no_colon: "CHR '':'' \<notin> set (showInt i)"
  using showNat_digits digit_not_special(6) by (auto simp: showInt_def)

lemma showInt_nonempty: "showInt i \<noteq> []"
  by (simp add: showInt_def showNat_nonempty)

lemma stringify_timestamp:
  assumes "stringifyMessage a = stringifyMessage b"
  shows "timestamp a = timestamp b"
proof -
  have ex: "takeWhile (\<lambda>c. c \<noteq> CHR '':'') (tl (rev (stringifyMessage m))) = rev (showInt (timestamp m))"
    for m
  proof -
    have "\<exists>p. stringifyMessage m = p @ '':'' @ showInt (timestamp m) @ ''}''"
      unfolding stringifyMessage_def by (metis append.assoc)
    then obtain p where "stringifyMessage m = p @ '':'' @ showInt (timestamp m) @ ''}''" ..
    then have "tl (rev (stringifyMessage m)) = rev (showInt (timestamp m)) @ CHR '':'' # rev p"
      by simp
    then show ?thesis
      using showInt_no_colon [of "timestamp m"] by (auto simp: takeWhile_append2 takeWhile_tail)
  qed
  from assms ex [of a] ex [of b] have "showInt (timestamp a) = showInt (timestamp b)"
    by (metis rev_is_rev_conv)
  then have "parseInt (showInt (timestamp a)) = parseInt (showInt (timestamp b))" by simp
  then show ?thesis by (simp add: parseInt_showInt)
qed

subsection \<open>Logs built by \<open>createMessage\<close>\<close>

lemma distinct_stringify:
  assumes "distinct (map timestamp ms)"
  shows "distinct (map stringifyMessage ms)"
proof -
  from assms have d: "distinct ms" and i: "inj_on timestamp (set ms)"
    by (simp_all add: distinct_map)
  have "inj_on stringifyMessage (set ms)"
  proof (rule inj_onI)
    fix a b
    assume a: "a \<in> set ms" and b: "b \<in> set ms" and e: "stringifyMessage a = stringifyMessage b"
    from e have t: "timestamp a = timestamp b" by (rule stringify_timestamp)
    show "a = b" by (rule inj_onD [OF i t a b])
  qed
  with d show ?thesis by (simp add: distinct_map)
qed

lemma stored_general:
  assumes "chatRoomMessages st r = []" and "\<forall>m\<in>set ms. chatRoomId m = r"
    and "distinct (map stringifyMessage ms)"
  shows "chatRoomMessages (foldl storeMessage st ms) r = drop (length ms - 100) (sort_key zKey ms)"
  using assms by (simp add: foldl_storeMessage_log retained_log)

lemma stored_sorted:
  assumes "chatRoomMessages st r = []" and "\<forall>m\<in>set ms. chatRoomId m = r"
    and "distinct (map stringifyMessage ms)" and "sorted (map zKey ms)"
  shows "chatRoomMessages (foldl storeMessage st ms) r = drop (length ms - 100) ms"
  using assms by (simp add: stored_general sort_key_id_if_sorted)

lemma stored_increasing:
  assumes "chatRoomMessages st r = []" and "\<forall>m\<in>set ms. chatRoomId m = r"
    and "sorted_wrt (<) (map timestamp ms)"
  shows "chatRoomMessages (foldl storeMessage st ms) r = drop (length ms - 100) ms"
proof -
  from assms(3) have "distinct (map timestamp ms)" by (simp add: strict_sorted_iff)
  then have "distinct (map stringifyMessage ms)" by (rule distinct_stringify)
  with assms show ?thesis by (simp add: stored_sorted increasing_sorted_zKey)
qed

lemma numbered_simps [simp]:
  "timestamp (numbered k) = k" "chatRoomId (numbered k) = ''room1''"
  by (simp_all add: numbered_def)

lemma numberedFrom_room: "\<forall>m\<in>set (numberedFrom i j). chatRoomId m = ''room1''"
  by (simp add: numberedFrom_def)

lemma numberedFrom_timestamps: "map timestamp (numberedFrom i j) = [i..j]"
  by (simp add: numberedFrom_def comp_def)

lemma numberedFrom_bounds: "m \<in> set (numberedFrom i j) \<Longrightarrow> i \<le> timestamp m \<and> timestamp m \<le> j"
  by (auto simp: numberedFrom_def)

lemma length_numberedFrom: "length (numberedFrom i j) = nat (j - i + 1)"
  by (simp add: numberedFrom_def)

lemma increasing_numberedFrom: "sorted_wrt (<) (map timestamp (numberedFrom i j))"
  by (simp add: numberedFrom_timestamps)

lemma drop_upto: "drop k [i..j] = [i + int k..j]"
proof (induction k arbitrary: i)
  case 0
  then show ?case by simp
next
  case (Suc k)
  show ?case
  proof (cases "i \<le> j")
    case True
    then have "drop (Suc k) [i..j] = drop k [i + 1..j]" by (simp add: upto_rec1)
    also have "\<dots> = [i + 1 + int k..j]" by (rule Suc.IH)
    also have "i + 1 + int k = i + int (Suc k)" by simp
    finally show ?thesis .
  next
    case False
    then show ?thesis by simp
  qed
qed

lemma drop_numberedFrom: "drop k (numberedFrom i j) = numberedFrom (i + int k) j"
  by (simp add: numberedFrom_def drop_map drop_upto)

lemma msgs105_facts:
  "\<forall>m\<in>set msgs105. chatRoomId m = ''room1''"
  "sorted_wrt (<) (map timestamp msgs105)"
  "length msgs105 = 105"
  by (simp_all add: msgs105_def numberedFrom_room increasing_numberedFrom length_numberedFrom)

lemma zKey_rankLe: "(zKey a \<le> zKey b) = rankLe a b"
  by (auto simp: zKey_def rankLe_def less_eq_prod_def)

lemma sorted_zAdd: "sorted (map zKey l) \<Longrightarrow> sorted (map zKey (zAdd l m))"
  by (simp add: zAdd_def sorted_insort_key sorted_filter)

lemma sorted_retain: "sorted (map zKey l) \<Longrightarrow> sorted (map zKey (retain l))"
  by (simp add: retain_def drop_map [symmetric] sorted_wrt_drop)

lemma logsSorted_createMessage:
  "logsSorted st \<Longrightarrow> logsSorted (snd (createMessage st r u n c i t))"
  by (simp add: logsSorted_def createMessage_log sorted_zAdd sorted_retain)

lemma logsSorted_storeMessage: "logsSorted st \<Longrightarrow> logsSorted (storeMessage st m)"
  by (simp add: storeMessage_def logsSorted_createMessage)

lemma logsSorted_empty: "logsSorted emptyRedis"
  by (simp add: logsSorted_def emptyRedis_def)

lemma distinct_zAdd:
  assumes "distinct (map stringifyMessage l)"
  shows "distinct (map stringifyMessage (zAdd l m))"
proof -
  let ?l = "filter (\<lambda>x. stringifyMessage x \<noteq> stringifyMessage m) l"
  have d: "distinct (map stringifyMessage ?l)"
    using assms by (rule distinct_map_filter)
  have n: "stringifyMessage m \<notin> stringifyMessage ` set ?l" by auto
  have "mset (map stringifyMessage (insort_key zKey m ?l))
          = add_mset (stringifyMessage m) (mset (map stringifyMessage ?l))"
    by simp
  also have "\<dots> = mset (map stringifyMessage (m # ?l))" by simp
  finally have "distinct (map stringifyMessage (insort_key zKey m ?l))
                  = distinct (map stringifyMessage (m # ?l))"
    by (rule mset_eq_imp_distinct_iff)
  then show ?thesis using d n by (simp add: zAdd_def)
qed

lemma createMessage_keeps_log:
  assumes "sorted (map zKey (chatRoomMessages st r'))"
    and "distinct (map stringifyMessage (chatRoomMessages st r'))"
  shows "sorted (map zKey (chatRoomMessages (snd (createMessage st r u n c i t)) r'))"
    and "distinct (map stringifyMessage (chatRoomMessages (snd (createMessage st r u n c i t)) r'))"
    and "distinct (chatRoomMessages (snd (createMessage st r u n c i t)) r')"
proof -
  show "sorted (map zKey (chatRoomMessages (snd (createMessage st r u n c i t)) r'))"
    using assms(1) by (cases "r' = r") (simp_all add: createMessage_log sorted_zAdd sorted_retain)
  show d: "distinct (map stringifyMessage (chatRoomMessages (snd (createMessage st r u n c i t)) r'))"
    using assms(2) distinct_zAdd [of "chatRoomMessages st r'"]
    by (cases "r' = r") (simp_all add: createMessage_log retain_def drop_map [symmetric])
  then show "distinct (chatRoomMessages (snd (createMessage st r u n c i t)) r')"
    by (simp add: distinct_map)
qed

section \<open>C1: retention\<close>

text \<open>
  C1. After every call of \<open>createMessage\<close> the log of the room holds at most 100 messages,
  and the log of every other room is as it was.
  Messages stored into an empty log whose serialised members differ pairwise leave the
  (at most) 100 of highest rank, the oldest being evicted; when their timestamps increase
  strictly these are the last 100 of them in the order they were stored, so 105 messages
  leave the 100 most recent and evict the first five.
\<close>

theorem createMessage_retention:
  "length (chatRoomMessages (snd (createMessage st r u n c i t)) r) \<le> 100 \<and>
   (r' \<noteq> r \<longrightarrow>
      chatRoomMessages (snd (createMessage st r u n c i t)) r' = chatRoomMessages st r') \<and>
   (chatRoomMessages st r = [] \<and> (\<forall>m\<in>set ms. chatRoomId m = r) \<longrightarrow>
      (distinct (map stringifyMessage ms) \<longrightarrow>
         chatRoomMessages (foldl storeMessage st ms) r = drop (length ms - 100) (sort_key zKey ms)) \<and>
      (sorted_wrt (<) (map timestamp ms) \<longrightarrow>
         chatRoomMessages (foldl storeMessage st ms) r = drop (length ms - 100) ms))"
  using stored_general [of st r ms] stored_increasing [of st r ms]
  by (simp add: createMessage_log length_retain)

theorem createMessage_retention_witness:
  "''room2'' \<noteq> ''room1'' \<and>
   chatRoomMessages (snd (createMessage st105 ''room1'' ''u1'' ''alice'' ''hi'' ''105-m'' 105)) ''room2''
     = chatRoomMessages st105 ''room2'' \<and>
   chatRoomMessages st_book ''room1'' = [] \<and>
   list_all (\<lambda>m. chatRoomId m = ''room1'') msgs105 \<and>
   distinct (map stringifyMessage msgs105) \<and>
   sorted_wrt (<) (map timestamp msgs105) \<and>
   length msgs105 = 105 \<and>
   chatRoomMessages st105 ''room1'' = drop 5 (sort_key zKey msgs105) \<and>
   chatRoomMessages st105 ''room1'' = drop 5 msgs105 \<and>
   length (chatRoomMessages st105 ''room1'') = 100 \<and>
   length (chatRoomMessages
     (snd (createMessage st105 ''room1'' ''u1'' ''alice'' ''hi'' ''105-m'' 105)) ''room1'') \<le> 100"
proof -
  have h0: "''room2'' \<noteq> ''room1''" by simp
  have h1: "chatRoomMessages st_book ''room1'' = []" by (simp add: st_book_eval)
  have h2: "\<forall>m\<in>set msgs105. chatRoomId m = ''room1''" by (rule msgs105_facts)
  have h3: "sorted_wrt (<) (map timestamp msgs105)" by (rule msgs105_facts)
  have h4: "distinct (map stringifyMessage msgs105)"
    using h3 by (simp add: distinct_stringify strict_sorted_iff)
  have l: "length msgs105 = 105" by (rule msgs105_facts)
  note t = createMessage_retention [where st = st_book and r = "''room1''" and ms = msgs105]
  note t' = createMessage_retention [where st = st105 and r = "''room1''" and r' = "''room2''"
              and u = "''u1''" and n = "''alice''" and c = "''hi''" and i = "''105-m''" and t = 105]
  from t h1 h2 h3
  have "chatRoomMessages st105 ''room1'' = drop (length msgs105 - 100) msgs105"
    unfolding st105_def by blast
  then have e: "chatRoomMessages st105 ''room1'' = drop 5 msgs105" by (simp add: l)
  from t h1 h2 h4
  have "chatRoomMessages st105 ''room1'' = drop (length msgs105 - 100) (sort_key zKey msgs105)"
    unfolding st105_def by blast
  then have g: "chatRoomMessages st105 ''room1'' = drop 5 (sort_key zKey msgs105)" by (simp add: l)
  have h2': "list_all (\<lambda>m. chatRoomId m = ''room1'') msgs105"
    using h2 by (simp add: list_all_iff)
  have n: "length (chatRoomMessages st105 ''room1'') = 100" by (simp add: e l)
  from t' h0 have o: "chatRoomMessages
      (snd (createMessage st105 ''room1'' ''u1'' ''alice'' ''hi'' ''105-m'' 105)) ''room2''
        = chatRoomMessages st105 ''room2''"
    by blast
  from t' have b: "length (chatRoomMessages
      (snd (createMessage st105 ''room1'' ''u1'' ''alice'' ''hi'' ''105-m'' 105)) ''room1'') \<le> 100"
    by blast
  show ?thesis by (intro conjI h0 o h1 h2' h4 h3 l g e n b)
qed

section \<open>C7: the order of messages with equal timestamps\<close>

lemma stored_any_order:
  assumes e: "chatRoomMessages st r = []"
    and rm: "\<forall>m\<in>set ms. chatRoomId m = r"
    and d: "distinct (map stringifyMessage ms)"
    and p: "mset ms' = mset ms"
  shows "chatRoomMessages (foldl storeMessage st ms') r = chatRoomMessages (foldl storeMessage st ms) r"
proof -
  from p have se: "set ms' = set ms" by (rule mset_eq_setD)
  from p have le: "length ms' = length ms" by (rule mset_eq_length)
  have "mset (map stringifyMessage ms') = mset (map stringifyMessage ms)" using p by simp
  then have "distinct (map stringifyMessage ms') = distinct (map stringifyMessage ms)"
    by (rule mset_eq_imp_distinct_iff)
  with d have d': "distinct (map stringifyMessage ms')" by simp
  have rm': "\<forall>m\<in>set ms'. chatRoomId m = r" using rm se by simp
  have injs: "inj_on stringifyMessage (set ms')" using d' by (simp add: distinct_map)
  have inj: "inj_on zKey (set ms')"
  proof (rule inj_onI)
    fix a b
    assume a: "a \<in> set ms'" and b: "b \<in> set ms'" and k: "zKey a = zKey b"
    from k have q: "stringifyMessage a = stringifyMessage b" by (simp add: zKey_def)
    show "a = b" by (rule inj_onD [OF injs q a b])
  qed
  have "mset ms' = mset (sort_key zKey ms)" using p by simp
  then have s: "sort_key zKey ms' = sort_key zKey ms"
    using inj by (rule sort_key_inj_key_eq) simp
  show ?thesis
    by (simp add: stored_general [OF e rm d] stored_general [OF e rm' d'] le s)
qed

lemma logsSorted_rankLe: "logsSorted st \<Longrightarrow> sorted_wrt rankLe (chatRoomMessages st r)"
  by (simp add: logsSorted_def sorted_map zKey_rankLe)

text \<open>
  C7 as stated fails. Of two messages with the same timestamp, the one stored second is
  kept in the log before the one stored first when its serialised form, which begins with
  its id, is the smaller; and neither \<open>getMessages\<close> (which returns no message) nor
  \<open>getMessagesAfter\<close> (which raises) reads them back in the order they were stored.
\<close>

theorem tie_order_counterexample:
  "chatRoomMessages (storeMessage st_book tie_first) ''room1'' = [tie_first] \<and>
   chatRoomMessages st_tie ''room1'' = [tie_second, tie_first] \<and>
   getMessages st_tie ''room1'' (Some 50) None = [] \<and>
   getMessagesAfter st_tie ''room1'' 0 = Inl TypeError"
  unfolding st_tie_def storeMessage_def tie_first_def tie_second_def st_book_def by code_simp

text \<open>
  C7, amended. The log of a room is kept ordered by timestamp, and messages with the same
  timestamp by their serialised form (JSON text, compared byte-wise), not by the order in
  which they were stored: every \<open>createMessage\<close> keeps the logs in that order, and messages
  with pairwise different members stored into an empty log leave the same log in whatever
  order they are stored.
\<close>

theorem message_order:
  "logsSorted emptyRedis \<and>
   (logsSorted st \<longrightarrow>
      logsSorted (snd (createMessage st r u n c i t)) \<and>
      sorted_wrt rankLe (chatRoomMessages st r)) \<and>
   (chatRoomMessages st r = [] \<and> (\<forall>m\<in>set ms. chatRoomId m = r) \<and>
    distinct (map stringifyMessage ms) \<and> mset ms' = mset ms \<longrightarrow>
      chatRoomMessages (foldl storeMessage st ms') r = chatRoomMessages (foldl storeMessage st ms) r)"
  using logsSorted_empty logsSorted_createMessage [of st r u n c i t]
    logsSorted_rankLe [of st r] stored_any_order [of st r ms ms']
  by blast

theorem message_order_witness:
  "logsSorted emptyRedis \<and> logsSorted st_book \<and> logsSorted st_tie \<and>
   sorted_wrt rankLe (chatRoomMessages st_tie ''room1'') \<and>
   rankLe tie_second tie_first \<and> \<not> rankLe tie_first tie_second \<and>
   chatRoomMessages st_book ''room1'' = [] \<and>
   list_all (\<lambda>m. chatRoomId m = ''room1'') [tie_first, tie_second] \<and>
   distinct (map stringifyMessage [tie_first, tie_second]) \<and>
   mset [tie_second, tie_first] = mset [tie_first, tie_second] \<and>
   chatRoomMessages (foldl storeMessage st_book [tie_second, tie_first]) ''room1''
     = chatRoomMessages (foldl storeMessage st_book [tie_first, tie_second]) ''room1''"
proof -
  have e: "logsSorted emptyRedis" using message_order by blast
  have s0: "logsSorted st_book" by (simp add: logsSorted_def st_book_eval)
  have s1: "logsSorted (storeMessage st_book tie_first)"
    unfolding storeMessage_def using s0 message_order [of st_book] by blast
  have s2: "logsSorted st_tie"
    unfolding st_tie_def storeMessage_def [of _ tie_second]
    using s1 message_order [of "storeMessage st_book tie_first"] by blast
  have a: "sorted_wrt rankLe (chatRoomMessages st_tie ''room1'')"
    using s2 message_order [of st_tie] by blast
  have c: "rankLe tie_second tie_first \<and> \<not> rankLe tie_first tie_second"
    unfolding rankLe_def tie_first_def tie_second_def by code_simp
  have h1: "chatRoomMessages st_book ''room1'' = []" by (simp add: st_book_eval)
  have h2: "\<forall>m\<in>set [tie_first, tie_second]. chatRoomId m = ''room1''"
    by (simp add: tie_first_def tie_second_def)
  have h3: "distinct (map stringifyMessage [tie_first, tie_second])"
    unfolding tie_first_def tie_second_def by code_simp
  have h4: "mset [tie_second, tie_first] = mset [tie_first, tie_second]" by simp
  from message_order [where st = st_book and r = "''room1''" and ms = "[tie_first, tie_second]"
         and ms' = "[tie_second, tie_first]"] h1 h2 h3 h4
  have o: "chatRoomMessages (foldl storeMessage st_book [tie_second, tie_first]) ''room1''
             = chatRoomMessages (foldl storeMessage st_book [tie_first, tie_second]) ''room1''"
    by blast
  have h2': "list_all (\<lambda>m. chatRoomId m = ''room1'') [tie_first, tie_second]"
    using h2 by (simp add: list_all_iff)
  show ?thesis by (intro conjI e s0 s2 a conjunct1 [OF c] conjunct2 [OF c] h1 h2' h3 h4 o)
qed

section \<open>C2: pages of messages\<close>

lemma getMessages_nothing: "getMessages st r lim bef = []"
  by (simp add: getMessages_def Let_def jsonParse_def)

lemma chatRoomHash_storeMessages: "chatRoomHash (foldl storeMessage st ms) = chatRoomHash st"
  by (induction ms arbitrary: st) (simp_all add: storeMessage_def createMessage_def Let_def)

lemma getChatRoom_st105: "getChatRoom st105 ''room1'' = Some room_book"
  using getChatRoom_st_book
  by (simp add: getChatRoom_def st105_def chatRoomHash_storeMessages)

lemma st105_log: "chatRoomMessages st105 ''room1'' = numberedFrom 5 104"
proof -
  have "chatRoomMessages st_book ''room1'' = []" by (simp add: st_book_eval)
  moreover note msgs105_facts(1,2)
  ultimately have "chatRoomMessages st105 ''room1'' = drop (length msgs105 - 100) msgs105"
    unfolding st105_def by (rule stored_increasing)
  then show ?thesis by (simp add: msgs105_facts(3)) (simp add: msgs105_def drop_numberedFrom)
qed

text \<open>
  C2. The claim is that \<open>getMessages\<close> returns the messages newest first, below the
  \<open>before\<close> cursor, at most 100 of them, and that two pages of 50 are contiguous. The code
  visibly means to (its comment says newest first, and it parses what it reads), but it
  passes \<open>rev: true\<close> to a client whose option is \<open>reverse\<close> and parses objects as if they
  were strings: the store call gives the 50 oldest entries of a log of 100, lowest first,
  every \<open>JSON.parse\<close> throws, and \<open>getMessages\<close> and the handler return no message.
\<close>

theorem getMessages_returns_nothing:
  "length (chatRoomMessages st105 ''room1'') = 100 \<and>
   map zscore (zRange (chatRoomMessages st105 ''room1'') NegInf PosInf 50) = [5..54] \<and>
   getMessages st105 ''room1'' (Some 50) None = [] \<and>
   getMessagesHandler st105 ctx_alice ''room1'' (Some 50) None = SuccessResponse 200 []"
proof -
  have l: "length (chatRoomMessages st105 ''room1'') = 100"
    by (simp add: st105_log length_numberedFrom)
  have "map zscore (zRange (chatRoomMessages st105 ''room1'') NegInf PosInf 50)
          = take 50 (map timestamp (numberedFrom 5 104))"
    by (simp add: zRange_def limitCount_def st105_log take_map comp_def)
  also have "\<dots> = take 50 [5..104]" by (simp only: numberedFrom_timestamps)
  also have "\<dots> = [5..54]" by code_simp
  finally have z: "map zscore (zRange (chatRoomMessages st105 ''room1'') NegInf PosInf 50) = [5..54]" .
  have g: "getMessages st105 ''room1'' (Some 50) None = []" by (rule getMessages_nothing)
  have h: "getMessagesHandler st105 ctx_alice ''room1'' (Some 50) None = SuccessResponse 200 []"
    by (simp add: getMessagesHandler_def ctx_alice_def getChatRoom_st105 Let_def getMessages_nothing)
       (simp add: room_book_eval)
  show ?thesis by (intro conjI l z g h)
qed

end
